theory Spec2Isabelle
  imports Main "HOL-Library.Sublist" "HOL-Library.Word"
begin

section \<open>Bytes and text\<close>

text \<open>
  Go's \<open>[]byte\<close> and \<open>string\<close> are byte sequences. A HOL \<open>char\<close> is one byte, so both
  are modelled as \<open>string\<close> and the templates of the generator can be written as literals.
\<close>

abbreviation NL :: string where "NL \<equiv> [CHR 0x0A]"
abbreviation TAB :: string where "TAB \<equiv> [CHR 0x09]"
abbreviation BSL :: string where "BSL \<equiv> [CHR 0x5C]"
abbreviation BOM :: string where "BOM \<equiv> [CHR 0xEF, CHR 0xBB, CHR 0xBF]"

section \<open>The literal sanitizer (release.go, sanitize)\<close>

text \<open>
  \<open>bytes.Replace(s, old, new, n)\<close> of the Go standard library, for a non-empty \<open>old\<close>:
  the occurrences of \<open>old\<close> are found from the left, without overlap, and the first
  \<open>n\<close> of them (all of them when \<open>n < 0\<close>) are replaced by \<open>new\<close>. Both calls in
  \<open>sanitize\<close> pass a non-empty \<open>old\<close> and \<open>n = -1\<close>; the rune-wise insertion that Go
  performs for an empty \<open>old\<close> is outside this model, which leaves \<open>s\<close> as it is there.
\<close>

function bytes_Replace :: "string \<Rightarrow> string \<Rightarrow> string \<Rightarrow> int \<Rightarrow> string" where
  "bytes_Replace [] old new n = []"
| "bytes_Replace (c # cs) old new n =
     (if n \<noteq> 0 \<and> old \<noteq> [] \<and> prefix old (c # cs)
      then new @ bytes_Replace (drop (length old) (c # cs)) old new (n - 1)
      else c # bytes_Replace cs old new n)"
  by pat_completeness auto
termination
  by (relation "measure (\<lambda>(s, old, new, n). length s)") auto

text \<open>The two replacement texts of \<open>sanitize\<close>, as Go reads the literals in its source.\<close>

abbreviation backquote_escape :: string where
  \<open>backquote_escape \<equiv> ''`+"`"+`''\<close>

abbreviation bom_escape :: string where
  \<open>bom_escape \<equiv> ''`+"'' @ BSL @ ''xEF'' @ BSL @ ''xBB'' @ BSL @ ''xBF"+`''\<close>

definition sanitize :: "string \<Rightarrow> string" where
  \<open>sanitize b =
     bytes_Replace (bytes_Replace b ''`'' backquote_escape (- 1)) BOM bom_escape (- 1)\<close>

section \<open>Standard-library functions the generator calls\<close>

text \<open>
  \<open>utf8.Valid\<close>: the input is a sequence of well-formed UTF-8 encodings. ASCII bytes
  stand alone; a lead byte 0xC2..0xF4 fixes the number of continuation bytes and the range
  of the first of them, which excludes overlong forms, surrogates and code points above
  U+10FFFF.
\<close>

definition in_range :: "nat \<Rightarrow> nat \<Rightarrow> char \<Rightarrow> bool" where
  "in_range lo hi c = (lo \<le> of_char c \<and> (of_char c :: nat) \<le> hi)"

fun utf8_Valid :: "string \<Rightarrow> bool" where
  "utf8_Valid [] = True"
| "utf8_Valid (c # cs) =
     (if in_range 0x00 0x7F c then utf8_Valid cs
      else if in_range 0xC2 0xDF c then
        (case cs of c1 # r \<Rightarrow> in_range 0x80 0xBF c1 \<and> utf8_Valid r | _ \<Rightarrow> False)
      else if in_range 0xE0 0xEF c then
        (case cs of
           c1 # c2 # r \<Rightarrow>
             (if c = CHR 0xE0 then in_range 0xA0 0xBF c1
              else if c = CHR 0xED then in_range 0x80 0x9F c1
              else in_range 0x80 0xBF c1)
             \<and> in_range 0x80 0xBF c2 \<and> utf8_Valid r
         | _ \<Rightarrow> False)
      else if in_range 0xF0 0xF4 c then
        (case cs of
           c1 # c2 # c3 # r \<Rightarrow>
             (if c = CHR 0xF0 then in_range 0x90 0xBF c1
              else if c = CHR 0xF4 then in_range 0x80 0x8F c1
              else in_range 0x80 0xBF c1)
             \<and> in_range 0x80 0xBF c2 \<and> in_range 0x80 0xBF c3 \<and> utf8_Valid r
         | _ \<Rightarrow> False)
      else False)"

text \<open>The verb \<open>%d\<close> of \<open>fmt\<close>: a decimal numeral, with a minus sign when negative.\<close>

fun digits :: "nat \<Rightarrow> string" where
  "digits n =
     (if n < 10 then [''0123456789'' ! n]
      else digits (n div 10) @ [''0123456789'' ! (n mod 10)])"

declare digits.simps [simp del]

definition fmt_d :: "int \<Rightarrow> string" where
  "fmt_d i = (if i < 0 then ''-'' @ digits (nat (- i)) else digits (nat i))"

section \<open>Data model\<close>

text \<open>The two fields of \<open>Config\<close> and the three fields of \<open>Asset\<close> that release.go reads.\<close>

record Config =
  NoCompress :: bool
  NoMemCopy :: bool

record Asset =
  Path :: string
  Name :: string
  Func :: string

text \<open>
  \<open>os.FileInfo\<close> as \<open>asset_release_common\<close> uses it: \<open>Size()\<close> is an int64, \<open>Mode()\<close> a
  uint32, and \<open>ModTime()\<close> a \<open>time.Time\<close>, an instant given by whole seconds since the Unix
  epoch and the nanoseconds within that second; \<open>Unix()\<close> returns the whole seconds.
\<close>

record Time =
  seconds :: "64 word"
  nanoseconds :: "32 word"

definition Unix :: "Time \<Rightarrow> 64 word" where
  "Unix t = seconds t"

record FileInfo =
  Size :: "64 word"
  Mode :: "32 word"
  ModTime :: Time

text \<open>
  An opened file, as an \<open>io.Reader\<close>: the chunks that successive \<open>Read\<close> calls deliver,
  and how the stream ends (\<open>None\<close> for \<open>io.EOF\<close>, \<open>Some e\<close> for a read error).
\<close>

record 'e Reader =
  chunks :: "string list"
  rerr :: "'e option"

text \<open>
  Everything outside release.go is a parameter. \<open>'w\<close> is the state of the output side:
  the \<open>io.Writer\<close> that \<open>writeRelease\<close> receives together with the streams layered on it.
  An operation returns the new state and Go's \<open>err\<close> (\<open>None\<close> for \<open>nil\<close>). Errors \<open>'e\<close>
  are only ever produced by the environment. \<open>StringWriter\<close> is a type of this package
  whose source is not part of release.go; \<open>StringWriter_Write\<close> is the \<open>Write\<close> method of
  \<open>&StringWriter{Writer: w}\<close>. \<open>gzip_NewWriter\<close>, \<open>gzip_Write\<close> and \<open>gzip_Close\<close> are
  \<open>gzip.NewWriter(&StringWriter{Writer: w})\<close> and the methods of the stream it returns.
  \<open>strconv_Quote\<close> is the verb \<open>%q\<close>.
\<close>

record ('w, 'e) env =
  os_Open :: "string \<Rightarrow> 'e + 'e Reader"
  os_Stat :: "string \<Rightarrow> 'e + FileInfo"
  Write :: "'w \<Rightarrow> string \<Rightarrow> 'w \<times> 'e option"
  StringWriter_Write :: "'w \<Rightarrow> string \<Rightarrow> 'w \<times> 'e option"
  gzip_NewWriter :: "'w \<Rightarrow> 'w"
  gzip_Write :: "'w \<Rightarrow> string \<Rightarrow> 'w \<times> 'e option"
  gzip_Close :: "'w \<Rightarrow> 'w \<times> 'e option"
  strconv_Quote :: "string \<Rightarrow> string"

text \<open>\<open>fmt.Fprintf\<close> formats into a buffer and hands it to the writer in one \<open>Write\<close>.\<close>

definition Fprintf :: "('w, 'e) env \<Rightarrow> 'w \<Rightarrow> string \<Rightarrow> 'w \<times> 'e option" where
  "Fprintf E w text = Write E w text"

text \<open>
  \<open>io.Copy(dst, src)\<close>: every chunk read is written to \<open>dst\<close>; the first write error
  stops the copy, and a read error is returned after the chunks before it were written.
\<close>

fun io_Copy :: "('w \<Rightarrow> string \<Rightarrow> 'w \<times> 'e option) \<Rightarrow> 'w \<Rightarrow> string list \<Rightarrow> 'e option \<Rightarrow> 'w \<times> 'e option" where
  "io_Copy wr w [] fin = (w, fin)"
| "io_Copy wr w (p # ps) fin =
     (case wr w p of
        (w', Some e) \<Rightarrow> (w', Some e)
      | (w', None) \<Rightarrow> io_Copy wr w' ps fin)"

definition ioutil_ReadAll :: "'e Reader \<Rightarrow> string \<times> 'e option" where
  "ioutil_ReadAll r = (concat (chunks r), rerr r)"

section \<open>Header emitters\<close>

definition header_compressed_nomemcopy_text :: string where
  \<open>header_compressed_nomemcopy_text =
     ''import ('' @ NL @
     TAB @ ''"bytes"'' @ NL @
     TAB @ ''"compress/gzip"'' @ NL @
     TAB @ ''"fmt"'' @ NL @
     TAB @ ''"io"'' @ NL @
     TAB @ ''"reflect"'' @ NL @
     TAB @ ''"strings"'' @ NL @
     TAB @ ''"unsafe"'' @ NL @
     TAB @ ''"os"'' @ NL @
     TAB @ ''"time"'' @ NL @
     TAB @ ''"io/ioutil"'' @ NL @
     TAB @ ''"path"'' @ NL @
     TAB @ ''"path/filepath"'' @ NL @
     TAB @ ''"grate"'' @ NL @
     '')'' @ NL @
     NL @
     ''func init() {'' @ NL @
     TAB @ ''grate.Asset = Asset'' @ NL @
     TAB @ ''grate.AssetDir = AssetDir'' @ NL @
     TAB @ ''grate.AssetNames = AssetNames'' @ NL @
     ''}'' @ NL @
     NL @
     ''func bindata_read(data, name string) ([]byte, error) {'' @ NL @
     TAB @ ''var empty [0]byte'' @ NL @
     TAB @ ''sx := (*reflect.StringHeader)(unsafe.Pointer(&data))'' @ NL @
     TAB @ ''b := empty[:]'' @ NL @
     TAB @ ''bx := (*reflect.SliceHeader)(unsafe.Pointer(&b))'' @ NL @
     TAB @ ''bx.Data = sx.Data'' @ NL @
     TAB @ ''bx.Len = len(data)'' @ NL @
     TAB @ ''bx.Cap = bx.Len'' @ NL @
     NL @
     TAB @ ''gz, err := gzip.NewReader(bytes.NewBuffer(b))'' @ NL @
     TAB @ ''if err != nil {'' @ NL @
     TAB @ TAB @ ''return nil, fmt.Errorf("Read %q: %v", name, err)'' @ NL @
     TAB @ ''}'' @ NL @
     NL @
     TAB @ ''var buf bytes.Buffer'' @ NL @
     TAB @ ''_, err = io.Copy(&buf, gz)'' @ NL @
     TAB @ ''gz.Close()'' @ NL @
     NL @
     TAB @ ''if err != nil {'' @ NL @
     TAB @ TAB @ ''return nil, fmt.Errorf("Read %q: %v", name, err)'' @ NL @
     TAB @ ''}'' @ NL @
     NL @
     TAB @ ''return buf.Bytes(), nil'' @ NL @
     ''}'' @ NL @
     NL\<close>

definition header_compressed_memcopy_text :: string where
  \<open>header_compressed_memcopy_text =
     ''import ('' @ NL @
     TAB @ ''"bytes"'' @ NL @
     TAB @ ''"compress/gzip"'' @ NL @
     TAB @ ''"fmt"'' @ NL @
     TAB @ ''"io"'' @ NL @
     TAB @ ''"strings"'' @ NL @
     TAB @ ''"os"'' @ NL @
     TAB @ ''"time"'' @ NL @
     TAB @ ''"io/ioutil"'' @ NL @
     TAB @ ''"path"'' @ NL @
     TAB @ ''"path/filepath"'' @ NL @
     TAB @ ''"grate"'' @ NL @
     '')'' @ NL @
     NL @
     ''func init() {'' @ NL @
     TAB @ ''grate.Asset = Asset'' @ NL @
     TAB @ ''grate.AssetDir = AssetDir'' @ NL @
     TAB @ ''grate.AssetNames = AssetNames'' @ NL @
     ''}'' @ NL @
     NL @
     ''func bindata_read(data []byte, name string) ([]byte, error) {'' @ NL @
     TAB @ ''gz, err := gzip.NewReader(bytes.NewBuffer(data))'' @ NL @
     TAB @ ''if err != nil {'' @ NL @
     TAB @ TAB @ ''return nil, fmt.Errorf("Read %q: %v", name, err)'' @ NL @
     TAB @ ''}'' @ NL @
     NL @
     TAB @ ''var buf bytes.Buffer'' @ NL @
     TAB @ ''_, err = io.Copy(&buf, gz)'' @ NL @
     TAB @ ''gz.Close()'' @ NL @
     NL @
     TAB @ ''if err != nil {'' @ NL @
     TAB @ TAB @ ''return nil, fmt.Errorf("Read %q: %v", name, err)'' @ NL @
     TAB @ ''}'' @ NL @
     NL @
     TAB @ ''return buf.Bytes(), nil'' @ NL @
     ''}'' @ NL @
     NL\<close>

definition header_uncompressed_nomemcopy_text :: string where
  \<open>header_uncompressed_nomemcopy_text =
     ''import ('' @ NL @
     TAB @ ''"fmt"'' @ NL @
     TAB @ ''"reflect"'' @ NL @
     TAB @ ''"strings"'' @ NL @
     TAB @ ''"unsafe"'' @ NL @
     TAB @ ''"os"'' @ NL @
     TAB @ ''"time"'' @ NL @
     TAB @ ''"io/ioutil"'' @ NL @
     TAB @ ''"path"'' @ NL @
     TAB @ ''"path/filepath"'' @ NL @
     TAB @ ''"grate"'' @ NL @
     '')'' @ NL @
     NL @
     ''func init() {'' @ NL @
     TAB @ ''grate.Asset = Asset'' @ NL @
     TAB @ ''grate.AssetDir = AssetDir'' @ NL @
     TAB @ ''grate.AssetNames = AssetNames'' @ NL @
     ''}'' @ NL @
     NL @
     ''func bindata_read(data, name string) ([]byte, error) {'' @ NL @
     TAB @ ''var empty [0]byte'' @ NL @
     TAB @ ''sx := (*reflect.StringHeader)(unsafe.Pointer(&data))'' @ NL @
     TAB @ ''b := empty[:]'' @ NL @
     TAB @ ''bx := (*reflect.SliceHeader)(unsafe.Pointer(&b))'' @ NL @
     TAB @ ''bx.Data = sx.Data'' @ NL @
     TAB @ ''bx.Len = len(data)'' @ NL @
     TAB @ ''bx.Cap = bx.Len'' @ NL @
     TAB @ ''return b, nil'' @ NL @
     ''}'' @ NL @
     NL\<close>

definition header_uncompressed_memcopy_text :: string where
  \<open>header_uncompressed_memcopy_text =
     ''import ('' @ NL @
     TAB @ ''"fmt"'' @ NL @
     TAB @ ''"strings"'' @ NL @
     TAB @ ''"os"'' @ NL @
     TAB @ ''"time"'' @ NL @
     TAB @ ''"io/ioutil"'' @ NL @
     TAB @ ''"path"'' @ NL @
     TAB @ ''"path/filepath"'' @ NL @
     TAB @ ''"grate"'' @ NL @
     '')'' @ NL @
     NL @
     ''func init() {'' @ NL @
     TAB @ ''grate.Asset = Asset'' @ NL @
     TAB @ ''grate.AssetDir = AssetDir'' @ NL @
     TAB @ ''grate.AssetNames = AssetNames'' @ NL @
     ''}'' @ NL\<close>

definition header_release_common_text :: string where
  \<open>header_release_common_text =
     ''type asset struct {'' @ NL @
     TAB @ ''bytes []byte'' @ NL @
     TAB @ ''info  os.FileInfo'' @ NL @
     ''}'' @ NL @
     NL @
     ''type bindata_file_info struct {'' @ NL @
     TAB @ ''name string'' @ NL @
     TAB @ ''size int64'' @ NL @
     TAB @ ''mode os.FileMode'' @ NL @
     TAB @ ''modTime time.Time'' @ NL @
     ''}'' @ NL @
     NL @
     ''func (fi bindata_file_info) Name() string {'' @ NL @
     TAB @ ''return fi.name'' @ NL @
     ''}'' @ NL @
     ''func (fi bindata_file_info) Size() int64 {'' @ NL @
     TAB @ ''return fi.size'' @ NL @
     ''}'' @ NL @
     ''func (fi bindata_file_info) Mode() os.FileMode {'' @ NL @
     TAB @ ''return fi.mode'' @ NL @
     ''}'' @ NL @
     ''func (fi bindata_file_info) ModTime() time.Time {'' @ NL @
     TAB @ ''return fi.modTime'' @ NL @
     ''}'' @ NL @
     ''func (fi bindata_file_info) IsDir() bool {'' @ NL @
     TAB @ ''return false'' @ NL @
     ''}'' @ NL @
     ''func (fi bindata_file_info) Sys() interface{} {'' @ NL @
     TAB @ ''return nil'' @ NL @
     ''}'' @ NL @
     NL\<close>


definition header_compressed_nomemcopy :: "('w, 'e) env \<Rightarrow> 'w \<Rightarrow> 'w \<times> 'e option" where
  "header_compressed_nomemcopy E w = Fprintf E w header_compressed_nomemcopy_text"

definition header_compressed_memcopy :: "('w, 'e) env \<Rightarrow> 'w \<Rightarrow> 'w \<times> 'e option" where
  "header_compressed_memcopy E w = Fprintf E w header_compressed_memcopy_text"

definition header_uncompressed_nomemcopy :: "('w, 'e) env \<Rightarrow> 'w \<Rightarrow> 'w \<times> 'e option" where
  "header_uncompressed_nomemcopy E w = Fprintf E w header_uncompressed_nomemcopy_text"

definition header_uncompressed_memcopy :: "('w, 'e) env \<Rightarrow> 'w \<Rightarrow> 'w \<times> 'e option" where
  "header_uncompressed_memcopy E w = Fprintf E w header_uncompressed_memcopy_text"

definition header_release_common :: "('w, 'e) env \<Rightarrow> 'w \<Rightarrow> 'w \<times> 'e option" where
  "header_release_common E w = Fprintf E w header_release_common_text"

definition writeReleaseHeader :: "('w, 'e) env \<Rightarrow> 'w \<Rightarrow> Config \<Rightarrow> 'w \<times> 'e option" where
  "writeReleaseHeader E w c =
     (case (if NoCompress c then
              (if NoMemCopy c then header_uncompressed_nomemcopy E w
               else header_uncompressed_memcopy E w)
            else
              (if NoMemCopy c then header_compressed_nomemcopy E w
               else header_compressed_memcopy E w)) of
        (w', Some e) \<Rightarrow> (w', Some e)
      | (w', None) \<Rightarrow> header_release_common E w')"

section \<open>Asset emitters\<close>

text \<open>
  The text that three of the four emitters write after the literal: the function
  \<open><Func>_bytes\<close>, which hands the literal and the quoted asset name to \<open>bindata_read\<close>.
\<close>

definition bytes_func_text :: "('w, 'e) env \<Rightarrow> Asset \<Rightarrow> string" where
  \<open>bytes_func_text E asset =
     NL @
     NL @
     ''func '' @ Func asset @ ''_bytes() ([]byte, error) {'' @ NL @
     TAB @ ''return bindata_read('' @ NL @
     TAB @ TAB @ ''_'' @ Func asset @ '','' @ NL @
     TAB @ TAB @ strconv_Quote E (Name asset) @ '','' @ NL @
     TAB @ '')'' @ NL @
     ''}'' @ NL @
     NL\<close>

text \<open>
  In both compressed emitters the error of \<open>gz.Close()\<close> is dropped, and the error of
  \<open>io.Copy\<close> is returned as it is.
\<close>

definition compressed_nomemcopy ::
  "('w, 'e) env \<Rightarrow> 'w \<Rightarrow> Asset \<Rightarrow> 'e Reader \<Rightarrow> 'w \<times> 'e option" where
  \<open>compressed_nomemcopy E w asset r =
     (case Fprintf E w (''var _'' @ Func asset @ '' = "'') of
        (w1, Some e) \<Rightarrow> (w1, Some e)
      | (w1, None) \<Rightarrow>
          (case io_Copy (gzip_Write E) (gzip_NewWriter E w1) (chunks r) (rerr r) of
             (w2, err) \<Rightarrow>
               (case gzip_Close E w2 of
                  (w3, _) \<Rightarrow>
                    (case err of
                       Some e \<Rightarrow> (w3, Some e)
                     | None \<Rightarrow> Fprintf E w3 (''"'' @ bytes_func_text E asset)))))\<close>

definition compressed_memcopy ::
  "('w, 'e) env \<Rightarrow> 'w \<Rightarrow> Asset \<Rightarrow> 'e Reader \<Rightarrow> 'w \<times> 'e option" where
  \<open>compressed_memcopy E w asset r =
     (case Fprintf E w (''var _'' @ Func asset @ '' = []byte("'') of
        (w1, Some e) \<Rightarrow> (w1, Some e)
      | (w1, None) \<Rightarrow>
          (case io_Copy (gzip_Write E) (gzip_NewWriter E w1) (chunks r) (rerr r) of
             (w2, err) \<Rightarrow>
               (case gzip_Close E w2 of
                  (w3, _) \<Rightarrow>
                    (case err of
                       Some e \<Rightarrow> (w3, Some e)
                     | None \<Rightarrow> Fprintf E w3 (''")'' @ bytes_func_text E asset)))))\<close>

definition uncompressed_nomemcopy ::
  "('w, 'e) env \<Rightarrow> 'w \<Rightarrow> Asset \<Rightarrow> 'e Reader \<Rightarrow> 'w \<times> 'e option" where
  \<open>uncompressed_nomemcopy E w asset r =
     (case Fprintf E w (''var _'' @ Func asset @ '' = "'') of
        (w1, Some e) \<Rightarrow> (w1, Some e)
      | (w1, None) \<Rightarrow>
          (case io_Copy (StringWriter_Write E) w1 (chunks r) (rerr r) of
             (w2, Some e) \<Rightarrow> (w2, Some e)
           | (w2, None) \<Rightarrow> Fprintf E w2 (''"'' @ bytes_func_text E asset)))\<close>

text \<open>
  The literal of the copying, uncompressed emitter: a raw literal of the sanitized bytes
  when they are valid UTF-8, the quoted form otherwise. The result of this \<open>Fprintf\<close> is
  not looked at in the source.
\<close>

definition memcopy_literal :: "('w, 'e) env \<Rightarrow> string \<Rightarrow> string" where
  \<open>memcopy_literal E b =
     (if utf8_Valid b then ''`'' @ sanitize b @ ''`'' else strconv_Quote E b)\<close>

definition uncompressed_memcopy ::
  "('w, 'e) env \<Rightarrow> 'w \<Rightarrow> Asset \<Rightarrow> 'e Reader \<Rightarrow> 'w \<times> 'e option" where
  \<open>uncompressed_memcopy E w asset r =
     (case Fprintf E w (''var _'' @ Func asset @ '' = []byte('') of
        (w1, Some e) \<Rightarrow> (w1, Some e)
      | (w1, None) \<Rightarrow>
          (case ioutil_ReadAll r of
             (b, Some e) \<Rightarrow> (w1, Some e)
           | (b, None) \<Rightarrow>
               (case Fprintf E w1 (memcopy_literal E b) of
                  (w2, _) \<Rightarrow>
                    Fprintf E w2
                      ('')'' @ NL @
                       NL @
                       ''func '' @ Func asset @ ''_bytes() ([]byte, error) {'' @ NL @
                       TAB @ ''return _'' @ Func asset @ '', nil'' @ NL @
                       ''}'' @ NL @
                       NL))))\<close>

definition asset_release_common_text :: "('w, 'e) env \<Rightarrow> Asset \<Rightarrow> FileInfo \<Rightarrow> string" where
  \<open>asset_release_common_text E asset fi =
     ''func '' @ Func asset @ ''() (*asset, error) {'' @ NL @
     TAB @ ''bytes, err := '' @ Func asset @ ''_bytes()'' @ NL @
     TAB @ ''if err != nil {'' @ NL @
     TAB @ TAB @ ''return nil, err'' @ NL @
     TAB @ ''}'' @ NL @
     NL @
     TAB @ ''info := bindata_file_info{name: '' @ strconv_Quote E (Name asset) @
       '', size: '' @ fmt_d (sint (Size fi)) @
       '', mode: os.FileMode('' @ fmt_d (uint (Mode fi)) @
       ''), modTime: time.Unix('' @ fmt_d (sint (Unix (ModTime fi))) @ '', 0)}'' @ NL @
     TAB @ ''a := &asset{bytes: bytes, info:  info}'' @ NL @
     TAB @ ''return a, nil'' @ NL @
     ''}'' @ NL @
     NL\<close>

definition asset_release_common :: "('w, 'e) env \<Rightarrow> 'w \<Rightarrow> Asset \<Rightarrow> 'w \<times> 'e option" where
  "asset_release_common E w asset =
     (case os_Stat E (Path asset) of
        Inl e \<Rightarrow> (w, Some e)
      | Inr fi \<Rightarrow> Fprintf E w (asset_release_common_text E asset fi))"

text \<open>
  The four-way choice in the middle of \<open>writeReleaseAsset\<close>, on the flags of the
  configuration.
\<close>

definition writeReleaseAsset_emit ::
  "('w, 'e) env \<Rightarrow> 'w \<Rightarrow> Config \<Rightarrow> Asset \<Rightarrow> 'e Reader \<Rightarrow> 'w \<times> 'e option" where
  "writeReleaseAsset_emit E w c asset fd =
     (if NoCompress c then
        (if NoMemCopy c then uncompressed_nomemcopy E w asset fd
         else uncompressed_memcopy E w asset fd)
      else
        (if NoMemCopy c then compressed_nomemcopy E w asset fd
         else compressed_memcopy E w asset fd))"

text \<open>\<open>defer fd.Close()\<close> has no effect on the output and its result is not looked at.\<close>

definition writeReleaseAsset :: "('w, 'e) env \<Rightarrow> 'w \<Rightarrow> Config \<Rightarrow> Asset \<Rightarrow> 'w \<times> 'e option" where
  "writeReleaseAsset E w c asset =
     (case os_Open E (Path asset) of
        Inl e \<Rightarrow> (w, Some e)
      | Inr fd \<Rightarrow>
          (case writeReleaseAsset_emit E w c asset fd of
             (w', Some e) \<Rightarrow> (w', Some e)
           | (w', None) \<Rightarrow> asset_release_common E w' asset))"

section \<open>The release file\<close>

text \<open>The loop \<open>for i := range toc\<close> of \<open>writeRelease\<close>.\<close>

fun writeRelease_assets :: "('w, 'e) env \<Rightarrow> 'w \<Rightarrow> Config \<Rightarrow> Asset list \<Rightarrow> 'w \<times> 'e option" where
  "writeRelease_assets E w c [] = (w, None)"
| "writeRelease_assets E w c (a # toc) =
     (case writeReleaseAsset E w c a of
        (w', Some e) \<Rightarrow> (w', Some e)
      | (w', None) \<Rightarrow> writeRelease_assets E w' c toc)"

definition writeRelease :: "('w, 'e) env \<Rightarrow> 'w \<Rightarrow> Config \<Rightarrow> Asset list \<Rightarrow> 'w \<times> 'e option" where
  "writeRelease E w c toc =
     (case writeReleaseHeader E w c of
        (w', Some e) \<Rightarrow> (w', Some e)
      | (w', None) \<Rightarrow> writeRelease_assets E w' c toc)"

section \<open>Reading a literal back\<close>

text \<open>
  What the Go compiler makes of the text that the copying, uncompressed emitter puts
  between \<open>[]byte(\<close> and \<open>)\<close>: string literals joined by \<open>+\<close>, as the language
  specification defines them. Inside a raw literal every byte stands for itself up to the
  closing back quote, except that carriage returns are discarded from the value. Inside an
  interpreted literal a backslash starts an escape. A NUL byte and a byte-order mark are
  not accepted in source text. \<open>None\<close> means that the text is not accepted; the octal
  and Unicode escapes, which none of the emitters writes, are left out and give \<open>None\<close>
  as well.
\<close>

datatype lex_state = Operand | InRaw | InInterp | Operator

definition hex_val :: "char \<Rightarrow> nat option" where
  "hex_val c =
     (if in_range 0x30 0x39 c then Some (of_char c - 0x30)
      else if in_range 0x61 0x66 c then Some (of_char c - 0x61 + 10)
      else if in_range 0x41 0x46 c then Some (of_char c - 0x41 + 10)
      else None)"

definition simple_escape :: "char \<Rightarrow> char option" where
  \<open>simple_escape c =
     (if c = CHR ''a'' then Some (CHR 0x07)
      else if c = CHR ''b'' then Some (CHR 0x08)
      else if c = CHR ''f'' then Some (CHR 0x0C)
      else if c = CHR ''n'' then Some (CHR 0x0A)
      else if c = CHR ''r'' then Some (CHR 0x0D)
      else if c = CHR ''t'' then Some (CHR 0x09)
      else if c = CHR ''v'' then Some (CHR 0x0B)
      else if c = CHR 0x5C then Some (CHR 0x5C)
      else if c = CHR ''"'' then Some (CHR ''"'')
      else None)\<close>

fun go_scan :: "lex_state \<Rightarrow> string \<Rightarrow> string option" where
  "go_scan Operand [] = None"
| "go_scan InRaw [] = None"
| "go_scan InInterp [] = None"
| "go_scan Operator [] = Some []"
| \<open>go_scan Operand (c # cs) =
     (if c = CHR ''`'' then go_scan InRaw cs
      else if c = CHR ''"'' then go_scan InInterp cs
      else None)\<close>
| \<open>go_scan Operator (c # cs) = (if c = CHR ''+'' then go_scan Operand cs else None)\<close>
| \<open>go_scan InRaw (c # cs) =
     (if c = CHR ''`'' then go_scan Operator cs
      else if c = CHR 0x00 \<or> prefix BOM (c # cs) then None
      else if c = CHR 0x0D then go_scan InRaw cs
      else map_option ((#) c) (go_scan InRaw cs))\<close>
| \<open>go_scan InInterp (c # cs) =
     (if c = CHR ''"'' then go_scan Operator cs
      else if c = CHR 0x00 \<or> c = CHR 0x0A \<or> prefix BOM (c # cs) then None
      else if c = CHR 0x5C then
        (case cs of
           [] \<Rightarrow> None
         | x # r \<Rightarrow>
             (if x = CHR ''x'' then
                (case r of
                   h1 # h2 # r' \<Rightarrow>
                     (case (hex_val h1, hex_val h2) of
                        (Some a, Some b) \<Rightarrow>
                          map_option ((#) (char_of (16 * a + b))) (go_scan InInterp r')
                      | _ \<Rightarrow> None)
                 | _ \<Rightarrow> None)
              else
                (case simple_escape x of
                   Some b \<Rightarrow> map_option ((#) b) (go_scan InInterp r)
                 | None \<Rightarrow> None)))
      else map_option ((#) c) (go_scan InInterp cs))\<close>

definition go_string_value :: "string \<Rightarrow> string option" where
  "go_string_value src = go_scan Operand src"

section \<open>The strategy selector of the specification\<close>

text \<open>
  The specification describes the choice of emitters as a function of its own: a pair of
  flags gives one of four strategies, and a strategy gives a header writer and an asset
  writer. These definitions follow the specification's words; release.go has the choice
  inline, as two nested conditionals.
\<close>

datatype strategy = CompressedZeroCopy | CompressedCopy | UncompressedZeroCopy | UncompressedCopy

definition select :: "bool \<Rightarrow> bool \<Rightarrow> strategy" where
  "select compress zeroCopy =
     (if compress then (if zeroCopy then CompressedZeroCopy else CompressedCopy)
      else (if zeroCopy then UncompressedZeroCopy else UncompressedCopy))"

text \<open>The flags as the configuration holds them: \<open>NoCompress\<close> is the negated flag.\<close>

definition strategy_of :: "Config \<Rightarrow> strategy" where
  "strategy_of c = select (\<not> NoCompress c) (NoMemCopy c)"

fun header_writer :: "strategy \<Rightarrow> ('w, 'e) env \<Rightarrow> 'w \<Rightarrow> 'w \<times> 'e option" where
  "header_writer CompressedZeroCopy = header_compressed_nomemcopy"
| "header_writer CompressedCopy = header_compressed_memcopy"
| "header_writer UncompressedZeroCopy = header_uncompressed_nomemcopy"
| "header_writer UncompressedCopy = header_uncompressed_memcopy"

fun asset_writer ::
  "strategy \<Rightarrow> ('w, 'e) env \<Rightarrow> 'w \<Rightarrow> Asset \<Rightarrow> 'e Reader \<Rightarrow> 'w \<times> 'e option" where
  "asset_writer CompressedZeroCopy = compressed_nomemcopy"
| "asset_writer CompressedCopy = compressed_memcopy"
| "asset_writer UncompressedZeroCopy = uncompressed_nomemcopy"
| "asset_writer UncompressedCopy = uncompressed_memcopy"

text \<open>A run under one strategy: its header writer once, then its asset writer for every asset.\<close>

definition emit_asset :: "strategy \<Rightarrow> ('w, 'e) env \<Rightarrow> 'w \<Rightarrow> Asset \<Rightarrow> 'w \<times> 'e option" where
  "emit_asset s E w asset =
     (case os_Open E (Path asset) of
        Inl e \<Rightarrow> (w, Some e)
      | Inr fd \<Rightarrow>
          (case asset_writer s E w asset fd of
             (w', Some e) \<Rightarrow> (w', Some e)
           | (w', None) \<Rightarrow> asset_release_common E w' asset))"

fun emit_assets :: "strategy \<Rightarrow> ('w, 'e) env \<Rightarrow> 'w \<Rightarrow> Asset list \<Rightarrow> 'w \<times> 'e option" where
  "emit_assets s E w [] = (w, None)"
| "emit_assets s E w (a # toc) =
     (case emit_asset s E w a of
        (w', Some e) \<Rightarrow> (w', Some e)
      | (w', None) \<Rightarrow> emit_assets s E w' toc)"

definition generate :: "strategy \<Rightarrow> ('w, 'e) env \<Rightarrow> 'w \<Rightarrow> Asset list \<Rightarrow> 'w \<times> 'e option" where
  "generate s E w toc =
     (case header_writer s E w of
        (w1, Some e) \<Rightarrow> (w1, Some e)
      | (w1, None) \<Rightarrow>
          (case header_release_common E w1 of
             (w2, Some e) \<Rightarrow> (w2, Some e)
           | (w2, None) \<Rightarrow> emit_assets s E w2 toc))"

section \<open>Streams, files and buffers\<close>

text \<open>
  A stream writer: what it does with a sequence of bytes does not depend on how the bytes
  are cut into calls of \<open>Write\<close>. Writing nothing changes nothing, and writing \<open>p @ q\<close>
  is writing \<open>p\<close> and then, unless that failed, \<open>q\<close>.
\<close>

definition streaming :: "('w \<Rightarrow> string \<Rightarrow> 'w \<times> 'e option) \<Rightarrow> bool" where
  "streaming wr \<longleftrightarrow>
     (\<forall>w. wr w [] = (w, None)) \<and>
     (\<forall>w p q. wr w (p @ q) =
        (case wr w p of
           (w', Some e) \<Rightarrow> (w', Some e)
         | (w', None) \<Rightarrow> wr w' q))"

text \<open>
  Two results of \<open>os.Open\<close> that stand for the same file: the same error, or two readers
  that deliver the same bytes and end in the same way, however the bytes are cut into
  chunks.
\<close>

fun same_file :: "'e + 'e Reader \<Rightarrow> 'e + 'e Reader \<Rightarrow> bool" where
  "same_file (Inl e) (Inl e') = (e = e')"
| "same_file (Inr r) (Inr r') = (concat (chunks r) = concat (chunks r') \<and> rerr r = rerr r')"
| "same_file (Inl e) (Inr r') = False"
| "same_file (Inr r) (Inl e') = False"

text \<open>
  An output side that consists of the bytes written so far and of a hidden state of the
  streams (what a compressor holds back until it is closed). \<open>pre u s\<close> is the state \<open>s\<close>
  with the bytes \<open>u\<close> in front of its output, and \<open>behind u\<close> puts them in front of the
  output of a result.
\<close>

definition pre :: "string \<Rightarrow> string \<times> 'h \<Rightarrow> string \<times> 'h" where
  "pre u s = (u @ fst s, snd s)"

definition behind :: "string \<Rightarrow> (string \<times> 'h) \<times> 'e option \<Rightarrow> (string \<times> 'h) \<times> 'e option" where
  "behind u r = (pre u (fst r), snd r)"

text \<open>
  In a buffered environment the writer is a byte buffer that takes every write
  (\<open>bytes.Buffer\<close>), and the streams only add bytes at the end of the output: which bytes
  they add may depend on their hidden state and not on the output before them.
\<close>

definition appends :: "(string \<times> 'h \<Rightarrow> string \<Rightarrow> (string \<times> 'h) \<times> 'e option) \<Rightarrow> bool" where
  "appends wr \<longleftrightarrow> (\<forall>u s p. wr (pre u s) p = behind u (wr s p))"

definition buffered :: "(string \<times> 'h, 'e) env \<Rightarrow> bool" where
  "buffered E \<longleftrightarrow>
     (\<forall>s p. Write E s p = ((fst s @ p, snd s), None)) \<and>
     appends (StringWriter_Write E) \<and>
     appends (gzip_Write E) \<and>
     (\<forall>u s. gzip_NewWriter E (pre u s) = pre u (gzip_NewWriter E s)) \<and>
     (\<forall>u s. gzip_Close E (pre u s) = behind u (gzip_Close E s))"

text \<open>
  The texts of the assets of a table in the order of the table: what \<open>writeReleaseAsset\<close>
  writes for each of them into an empty buffer, the hidden state of the streams being
  handed from one asset to the next.
\<close>

fun asset_texts :: "(string \<times> 'h, 'e) env \<Rightarrow> Config \<Rightarrow> 'h \<Rightarrow> Asset list \<Rightarrow> string list" where
  "asset_texts E c h [] = []"
| "asset_texts E c h (a # toc) =
     (case writeReleaseAsset E ([], h) c a of
        ((t, h'), _) \<Rightarrow> t # asset_texts E c h' toc)"

section \<open>A concrete environment\<close>

text \<open>
  Modelled from the spec: the \<open>StringWriter\<close> of this package, whose source is not part
  of release.go. The specification calls it the primitive that writes arbitrary bytes as
  an escaped literal into an output stream; here every byte becomes the escape
  \<open>\xHH\<close> of an interpreted string literal, in lower-case hexadecimal.
\<close>

definition lowerHex :: string where
  "lowerHex = ''0123456789abcdef''"

definition StringWriter_escape :: "string \<Rightarrow> string" where
  "StringWriter_escape p =
     concat (map (\<lambda>c. BSL @ ''x'' @ [lowerHex ! (of_char c div 16), lowerHex ! (of_char c mod 16)]) p)"

text \<open>
  \<open>strconv.Quote\<close> on ASCII input: the text between double quotes, with the double quote
  and the backslash escaped, the control characters that have a letter escape written
  with it, and the other control characters as \<open>\xHH\<close>. Bytes from 0x80 on are written
  as \<open>\xHH\<close> too, which is what \<open>strconv.Quote\<close> does with a byte that is not part of a
  valid UTF-8 encoding.
\<close>

definition quote_byte :: "char \<Rightarrow> string" where
  \<open>quote_byte c =
     (if c = CHR ''"'' then BSL @ ''"''
      else if c = CHR 0x5C then BSL @ BSL
      else if c = CHR 0x07 then BSL @ ''a''
      else if c = CHR 0x08 then BSL @ ''b''
      else if c = CHR 0x0C then BSL @ ''f''
      else if c = CHR 0x0A then BSL @ ''n''
      else if c = CHR 0x0D then BSL @ ''r''
      else if c = CHR 0x09 then BSL @ ''t''
      else if c = CHR 0x0B then BSL @ ''v''
      else if in_range 0x20 0x7E c then [c]
      else StringWriter_escape [c])\<close>

definition Quote_bytewise :: "string \<Rightarrow> string" where
  \<open>Quote_bytewise s = ''"'' @ concat (map quote_byte s) @ ''"''\<close>

text \<open>
  An environment for running the generator on concrete inputs: the writer is a buffer
  that accepts everything (\<open>bytes.Buffer\<close>), errors are messages, and the file system is
  given by two functions. The compressor is a stand-in that passes the bytes on without
  compressing them; nothing below depends on what it writes.
\<close>

definition buffer_env ::
  "(string \<Rightarrow> string + string Reader) \<Rightarrow> (string \<Rightarrow> string + FileInfo) \<Rightarrow> (string, string) env" where
  "buffer_env opn stat =
     \<lparr> os_Open = opn,
       os_Stat = stat,
       Write = (\<lambda>w p. (w @ p, None)),
       StringWriter_Write = (\<lambda>w p. (w @ StringWriter_escape p, None)),
       gzip_NewWriter = (\<lambda>w. w),
       gzip_Write = (\<lambda>w p. (w @ StringWriter_escape p, None)),
       gzip_Close = (\<lambda>w. (w, None)),
       strconv_Quote = Quote_bytewise \<rparr>"

text \<open>The same environment with a compression stream whose writes fail.\<close>

definition failing_gzip_env ::
  "(string \<Rightarrow> string + string Reader) \<Rightarrow> (string \<Rightarrow> string + FileInfo) \<Rightarrow> (string, string) env" where
  "failing_gzip_env opn stat =
     (buffer_env opn stat) \<lparr> gzip_Write := (\<lambda>w p. (w, Some ''short write'')) \<rparr>"

text \<open>A file system with the single file \<open>a.txt\<close>, and the asset made from it.\<close>

definition one_file :: "string \<Rightarrow> string \<Rightarrow> string + string Reader" where
  "one_file content path =
     (if path = ''a.txt'' then Inr \<lparr> chunks = [content], rerr = None \<rparr>
      else Inl (''open '' @ path @ '': no such file or directory''))"

definition one_stat :: "string \<Rightarrow> string \<Rightarrow> string + FileInfo" where
  "one_stat content path =
     (if path = ''a.txt'' then
        Inr \<lparr> Size = of_nat (length content), Mode = 0x1A4,
              ModTime = \<lparr> seconds = 1400000000, nanoseconds = 987654321 \<rparr> \<rparr>
      else Inl (''stat '' @ path @ '': no such file or directory''))"

definition a_txt :: Asset where
  "a_txt = \<lparr> Path = ''a.txt'', Name = ''a.txt'', Func = ''a_txt'' \<rparr>"

definition missing_txt :: Asset where
  "missing_txt = \<lparr> Path = ''missing.txt'', Name = ''missing.txt'', Func = ''missing_txt'' \<rparr>"

text \<open>
  An environment with a hidden state: the compression stream holds the bytes back and
  writes them, through the \<open>StringWriter\<close>, when it is closed. It stands in for a
  compressor that buffers; the bytes are not compressed.
\<close>

definition buffering_env ::
  "(string \<Rightarrow> string + string Reader) \<Rightarrow> (string \<Rightarrow> string + FileInfo) \<Rightarrow>
   (string \<times> string, string) env" where
  "buffering_env opn stat =
     \<lparr> os_Open = opn,
       os_Stat = stat,
       Write = (\<lambda>s p. ((fst s @ p, snd s), None)),
       StringWriter_Write = (\<lambda>s p. ((fst s @ StringWriter_escape p, snd s), None)),
       gzip_NewWriter = (\<lambda>s. (fst s, [])),
       gzip_Write = (\<lambda>s p. ((fst s, snd s @ p), None)),
       gzip_Close = (\<lambda>s. ((fst s @ StringWriter_escape (snd s), []), None)),
       strconv_Quote = Quote_bytewise \<rparr>"

text \<open>The file \<open>a.txt\<close> again, delivered in two reads.\<close>

definition one_file_in_two_reads :: "string \<Rightarrow> string \<Rightarrow> string + string Reader" where
  "one_file_in_two_reads content path =
     (if path = ''a.txt'' then Inr \<lparr> chunks = [take 1 content, drop 1 content], rerr = None \<rparr>
      else Inl (''open '' @ path @ '': no such file or directory''))"

definition compressed_zero_copy :: Config where
  "compressed_zero_copy = \<lparr> NoCompress = False, NoMemCopy = True \<rparr>"

text \<open>A text file with a Windows line ending.\<close>

definition crlf_text :: string where
  "crlf_text = ''a'' @ [CHR 0x0D, CHR 0x0A] @ ''b''"

definition uncompressed_copy :: Config where
  "uncompressed_copy = \<lparr> NoCompress = True, NoMemCopy = False \<rparr>"

section \<open>Evaluation lemmas\<close>

lemma digits_small: "n < 10 \<Longrightarrow> digits n = [''0123456789'' ! n]"
  by (simp add: digits.simps)

lemma digits_large: "10 \<le> n \<Longrightarrow> digits n = digits (n div 10) @ [''0123456789'' ! (n mod 10)]"
  by (subst digits.simps) simp

lemmas fmt_eval = fmt_d_def digits_small digits_large

lemmas emitter_defs =
  writeReleaseAsset_def writeReleaseAsset_emit_def uncompressed_nomemcopy_def
  uncompressed_memcopy_def compressed_memcopy_def compressed_nomemcopy_def
  asset_release_common_def ioutil_ReadAll_def Fprintf_def

lemmas text_defs =
  asset_release_common_text_def bytes_func_text_def memcopy_literal_def Unix_def

lemmas concrete_defs =
  buffer_env_def one_file_def one_stat_def a_txt_def
  StringWriter_escape_def Quote_bytewise_def quote_byte_def lowerHex_def in_range_def

section \<open>The strategy selector\<close>

lemma writeReleaseAsset_emit_select:
  "writeReleaseAsset_emit E w c asset fd = asset_writer (strategy_of c) E w asset fd"
  by (simp add: writeReleaseAsset_emit_def strategy_of_def select_def)

lemma writeReleaseAsset_select: "writeReleaseAsset E w c a = emit_asset (strategy_of c) E w a"
  by (simp add: writeReleaseAsset_def emit_asset_def writeReleaseAsset_emit_select
      split: sum.splits)

lemma writeRelease_assets_select:
  "writeRelease_assets E w c toc = emit_assets (strategy_of c) E w toc"
  by (induction toc arbitrary: w) (simp_all add: writeReleaseAsset_select split: prod.splits option.splits)

lemma writeReleaseHeader_select:
  "writeReleaseHeader E w c =
     (case header_writer (strategy_of c) E w of
        (w', Some e) \<Rightarrow> (w', Some e)
      | (w', None) \<Rightarrow> header_release_common E w')"
  by (simp add: writeReleaseHeader_def strategy_of_def select_def)

lemma inj_select: "inj (\<lambda>(compress, zeroCopy). select compress zeroCopy)"
  by (rule injI) (auto simp: select_def split: if_splits)

lemma surj_select: "surj (\<lambda>(compress, zeroCopy). select compress zeroCopy)"
proof (rule surjI)
  fix s
  show "(\<lambda>(compress, zeroCopy). select compress zeroCopy)
      (case s of
         CompressedZeroCopy \<Rightarrow> (True, True)
       | CompressedCopy \<Rightarrow> (True, False)
       | UncompressedZeroCopy \<Rightarrow> (False, True)
       | UncompressedCopy \<Rightarrow> (False, False)) = s"
    by (cases s) (simp_all add: select_def)
qed

lemma header_texts_distinct:
  "distinct [header_compressed_nomemcopy_text, header_compressed_memcopy_text,
             header_uncompressed_nomemcopy_text, header_uncompressed_memcopy_text]"
  by (simp add: header_compressed_nomemcopy_text_def header_compressed_memcopy_text_def
      header_uncompressed_nomemcopy_text_def header_uncompressed_memcopy_text_def)

text \<open>
  C2. The two flags select one of four strategies: \<open>select\<close> is a bijection between the
  pairs of flags and the strategies, whose four headers differ from one another. The
  conditionals of \<open>writeReleaseHeader\<close> and \<open>writeReleaseAsset\<close> make the choice of
  \<open>select\<close>, and a run of \<open>writeRelease\<close> is the run of the selected strategy: its header
  writer once, and its asset writer for every asset of the table of contents.
\<close>

theorem strategy_selection:
  "bij (\<lambda>(compress, zeroCopy). select compress zeroCopy) \<and>
   distinct [header_compressed_nomemcopy_text, header_compressed_memcopy_text,
             header_uncompressed_nomemcopy_text, header_uncompressed_memcopy_text] \<and>
   writeReleaseHeader E w c =
     (case header_writer (strategy_of c) E w of
        (w', Some e) \<Rightarrow> (w', Some e)
      | (w', None) \<Rightarrow> header_release_common E w') \<and>
   writeReleaseAsset E w c a = emit_asset (strategy_of c) E w a \<and>
   writeRelease E w c toc = generate (strategy_of c) E w toc"
proof (intro conjI)
  show "bij (\<lambda>(compress, zeroCopy). select compress zeroCopy)"
    using inj_select surj_select by (rule bijI)
  show "writeRelease E w c toc = generate (strategy_of c) E w toc"
    by (simp add: writeRelease_def generate_def writeReleaseHeader_select
        writeRelease_assets_select split: prod.splits option.splits)
qed (rule header_texts_distinct writeReleaseHeader_select writeReleaseAsset_select)+

section \<open>Properties of the sanitizer\<close>

lemma bytes_Replace_absent:
  "\<not> sublist old s \<Longrightarrow> bytes_Replace s old new n = s"
proof (induction s)
  case Nil
  show ?case by simp
next
  case (Cons c cs)
  from Cons.prems have np: "\<not> prefix old (c # cs)" and ns: "\<not> sublist old cs"
    by (simp_all add: sublist_Cons_right)
  from Cons.IH [OF ns] np show ?case by simp
qed

lemma sublist_single_iff: "sublist [c] s \<longleftrightarrow> c \<in> set s"
  by (induction s) (auto simp: sublist_Cons_right)

text \<open>
  C10. \<open>sanitize\<close> returns unchanged every byte sequence that holds no back quote (0x60)
  and no occurrence of the byte-order mark 0xEF 0xBB 0xBF.
\<close>

theorem sanitize_identity:
  "CHR 0x60 \<notin> set b \<Longrightarrow> \<not> sublist BOM b \<Longrightarrow> sanitize b = b"
  by (simp add: sanitize_def bytes_Replace_absent sublist_single_iff)

theorem sanitize_identity_witness:
  "CHR 0x60 \<notin> set ''go: \<newline>x'' \<and> \<not> sublist BOM ''go: \<newline>x'' \<and> sanitize ''go: \<newline>x'' = ''go: \<newline>x''"
proof -
  have a: "CHR 0x60 \<notin> set ''go: \<newline>x''" by simp
  have b: "\<not> sublist BOM ''go: \<newline>x''" by code_simp
  from a b sanitize_identity [OF a b] show ?thesis by simp
qed

subsection \<open>Reading the sanitized literal back\<close>

lemma bom_bytes:
  "char_of (239::nat) = CHR 0xEF" "char_of (187::nat) = CHR 0xBB" "char_of (191::nat) = CHR 0xBF"
  by (simp_all add: char_of_eq_iff)

lemma scan_tick: "go_scan InRaw (backquote_escape @ rest) = map_option ((#) (CHR 0x60)) (go_scan InRaw rest)"
  by simp

lemma scan_bom: "go_scan InRaw (bom_escape @ rest) = map_option (\<lambda>v. BOM @ v) (go_scan InRaw rest)"
  by (simp add: hex_val_def in_range_def option.map_comp comp_def bom_bytes)

lemma bytes_Replace_all:
  "n < 0 \<Longrightarrow> m < 0 \<Longrightarrow> bytes_Replace s old new n = bytes_Replace s old new m"
proof (induction s old new n arbitrary: m rule: bytes_Replace.induct)
  case (1 old new n)
  show ?case by simp
next
  case (2 c cs old new n)
  show ?case
  proof (cases "old \<noteq> [] \<and> prefix old (c # cs)")
    case True
    with "2.prems" "2.IH"(1) [of "m - 1"] show ?thesis by simp
  next
    case False
    with "2.prems" "2.IH"(2) [of m] show ?thesis by auto
  qed
qed

lemma replace_tick_Cons:
  "bytes_Replace (c # cs) ''`'' new (- 1) =
   (if c = CHR 0x60 then new @ bytes_Replace cs ''`'' new (- 1)
    else c # bytes_Replace cs ''`'' new (- 1))"
  using bytes_Replace_all [of "- 2" "- 1" cs "''`''" new] by simp

lemma replace_bom_hit:
  "bytes_Replace (BOM @ s) BOM new (- 1) = new @ bytes_Replace s BOM new (- 1)"
  using bytes_Replace_all [of "- 2" "- 1" s BOM new] by simp

lemma replace_bom_miss:
  "\<not> prefix BOM (c # cs) \<Longrightarrow>
   bytes_Replace (c # cs) BOM new (- 1) = c # bytes_Replace cs BOM new (- 1)"
  by (subst bytes_Replace.simps(2)) (simp only: simp_thms if_False)

lemma replace_bom_tick:
  "bytes_Replace (backquote_escape @ s) BOM new (- 1) = backquote_escape @ bytes_Replace s BOM new (- 1)"
  by simp

lemma prefix_replace_tick:
  "prefix [CHR 0xBB, CHR 0xBF] (bytes_Replace cs ''`'' backquote_escape (- 1)) \<longleftrightarrow>
   prefix [CHR 0xBB, CHR 0xBF] cs"
proof (cases cs)
  case Nil
  then show ?thesis by simp
next
  case (Cons c1 cs1)
  show ?thesis
  proof (cases cs1)
    case Nil
    with Cons show ?thesis by (simp add: replace_tick_Cons del: bytes_Replace.simps(2))
  next
    case (Cons c2 cs2)
    with \<open>cs = c1 # cs1\<close> show ?thesis
      by (simp add: replace_tick_Cons del: bytes_Replace.simps(2))
  qed
qed

text \<open>The two passes of \<open>sanitize\<close> as one pass from the left.\<close>

lemma sanitize_Nil: "sanitize [] = []"
  by (simp add: sanitize_def)

lemma sanitize_tick: "sanitize (CHR 0x60 # cs) = backquote_escape @ sanitize cs"
  unfolding sanitize_def replace_tick_Cons using replace_bom_tick by simp

lemma sanitize_bom: "sanitize (BOM @ cs) = bom_escape @ sanitize cs"
  unfolding sanitize_def using replace_bom_hit
  by (simp add: replace_tick_Cons del: bytes_Replace.simps(2))

lemma sanitize_other:
  assumes "c \<noteq> CHR 0x60" and "\<not> prefix BOM (c # cs)"
  shows "sanitize (c # cs) = c # sanitize cs"
proof -
  from assms(2) have "\<not> prefix BOM (c # bytes_Replace cs ''`'' backquote_escape (- 1))"
    using prefix_replace_tick [of cs] by simp
  then show ?thesis
    unfolding sanitize_def using assms(1)
    by (simp add: replace_tick_Cons replace_bom_miss del: bytes_Replace.simps(2))
qed

lemma sanitize_cases:
  obtains (empty) "b = []"
  | (tick) cs where "b = CHR 0x60 # cs"
  | (bom) cs where "b = BOM @ cs"
  | (other) c cs where "b = c # cs" "c \<noteq> CHR 0x60" "\<not> prefix BOM (c # cs)"
proof (cases b)
  case Nil
  then show ?thesis by (rule empty)
next
  case (Cons c cs)
  show ?thesis
  proof (cases "c = CHR 0x60")
    case True
    with Cons show ?thesis by (auto intro: tick)
  next
    case False
    show ?thesis
    proof (cases "prefix BOM (c # cs)")
      case True
      then obtain r where "c # cs = BOM @ r" by (auto simp: prefix_def)
      with Cons show ?thesis by (auto intro: bom)
    next
      case no: False
      with Cons False show ?thesis by (auto intro: other)
    qed
  qed
qed

lemma sanitize_starts:
  "\<exists>x rest. sanitize cs @ ''`'' = x # rest \<and>
     (x = CHR 0x60 \<or> (\<exists>cs'. cs = x # cs' \<and> rest = sanitize cs' @ ''`''))"
proof (cases cs rule: sanitize_cases)
  case empty
  then show ?thesis by (simp add: sanitize_Nil)
next
  case (tick cs)
  then show ?thesis by (simp add: sanitize_tick)
next
  case (bom cs)
  then show ?thesis using sanitize_bom [of cs] by simp
next
  case (other c cs)
  then show ?thesis by (simp add: sanitize_other)
qed

lemma no_bom_tail:
  assumes "\<not> prefix [CHR 0xBB, CHR 0xBF] cs"
  shows "\<not> prefix [CHR 0xBB, CHR 0xBF] (sanitize cs @ ''`'')"
proof
  assume p: "prefix [CHR 0xBB, CHR 0xBF] (sanitize cs @ ''`'')"
  obtain x rest where 1: "sanitize cs @ ''`'' = x # rest"
    and 2: "x = CHR 0x60 \<or> (\<exists>cs'. cs = x # cs' \<and> rest = sanitize cs' @ ''`'')"
    using sanitize_starts [of cs] by blast
  from p 1 have x: "x = CHR 0xBB" and pr: "prefix [CHR 0xBF] rest" by simp_all
  with 2 obtain cs' where cs: "cs = CHR 0xBB # cs'" and rest: "rest = sanitize cs' @ ''`''"
    by auto
  obtain y rest' where 3: "sanitize cs' @ ''`'' = y # rest'"
    and 4: "y = CHR 0x60 \<or> (\<exists>cs''. cs' = y # cs'' \<and> rest' = sanitize cs'' @ ''`'')"
    using sanitize_starts [of cs'] by blast
  from pr rest 3 have "y = CHR 0xBF" by simp
  with 4 obtain cs'' where "cs' = CHR 0xBF # cs''" by auto
  with cs assms show False by simp
qed

lemma scan_sanitize:
  "CHR 0x0D \<notin> set b \<Longrightarrow> CHR 0x00 \<notin> set b \<Longrightarrow> go_scan InRaw (sanitize b @ ''`'') = Some b"
proof (induction b rule: length_induct)
  case (1 b)
  show ?case
  proof (cases b rule: sanitize_cases)
    case empty
    then show ?thesis by (simp add: sanitize_Nil)
  next
    case (tick cs)
    with "1.prems" have "go_scan InRaw (sanitize cs @ ''`'') = Some cs"
      using "1.IH" by simp
    with tick show ?thesis
      using scan_tick [of "sanitize cs @ ''`''"] by (simp add: sanitize_tick)
  next
    case (bom cs)
    with "1.prems" have "go_scan InRaw (sanitize cs @ ''`'') = Some cs"
      using "1.IH" by simp
    with bom show ?thesis
      using scan_bom [of "sanitize cs @ ''`''"] sanitize_bom [of cs] by simp
  next
    case (other c cs)
    with "1.prems" have ih: "go_scan InRaw (sanitize cs @ ''`'') = Some cs"
      using "1.IH" by simp
    from other(3) have "\<not> prefix BOM (c # sanitize cs @ ''`'')"
      using no_bom_tail [of cs] by auto
    with other "1.prems" ih show ?thesis
      by (auto simp: sanitize_other)
  qed
qed

text \<open>
  The raw literal of the sanitized bytes reads back as the bytes themselves whenever they
  hold no carriage return and no NUL byte.
\<close>

lemma sanitize_roundtrip:
  "CHR 0x0D \<notin> set b \<Longrightarrow> CHR 0x00 \<notin> set b \<Longrightarrow>
   go_string_value (''`'' @ sanitize b @ ''`'') = Some b"
  by (simp add: go_string_value_def scan_sanitize)

text \<open>A NUL byte is valid UTF-8 and passes through \<open>sanitize\<close>; the literal is then not accepted.\<close>

lemma sanitize_keeps_nul:
  "utf8_Valid [CHR 0x00] \<and> go_string_value (''`'' @ sanitize [CHR 0x00] @ ''`'') = None"
  by (simp add: go_string_value_def sanitize_def in_range_def)

section \<open>Metadata\<close>

text \<open>A decimal numeral written by \<open>%d\<close> determines the number.\<close>

lemma digit_char_inj:
  assumes "i < 10" and "j < 10" and "''0123456789'' ! i = ''0123456789'' ! j"
  shows "i = j"
proof -
  have "i \<in> {0, 1, 2, 3, 4, 5, 6, 7, 8, 9}" "j \<in> {0, 1, 2, 3, 4, 5, 6, 7, 8, 9}"
    using assms(1,2) by auto
  with assms(3) show ?thesis by auto
qed

lemma digit_char_not_minus: "i < 10 \<Longrightarrow> ''0123456789'' ! i \<noteq> CHR ''-''"
proof -
  assume "i < 10"
  then have "i \<in> {0, 1, 2, 3, 4, 5, 6, 7, 8, 9}" by auto
  then show ?thesis by auto
qed

lemma digits_nonempty: "digits n \<noteq> []"
  by (subst digits.simps) simp

lemma length_digits_large: "10 \<le> n \<Longrightarrow> 2 \<le> length (digits n)"
  using digits_nonempty [of "n div 10"]
  by (subst digits.simps) (simp add: Suc_le_eq)

lemma hd_digits_not_minus: "hd (digits n) \<noteq> CHR ''-''"
proof (induction n rule: digits.induct)
  case (1 n)
  show ?case
  proof (cases "n < 10")
    case True
    then show ?thesis by (simp add: digits_small digit_char_not_minus del: nth_Cons_numeral)
  next
    case False
    with "1.IH" digits_nonempty [of "n div 10"] show ?thesis
      by (simp add: digits_large)
  qed
qed

lemma digits_inj: "digits n = digits m \<Longrightarrow> n = m"
proof (induction n arbitrary: m rule: digits.induct)
  case (1 n)
  show ?case
  proof (cases "n < 10")
    case True
    from True have "length (digits n) = 1"
      by (simp add: digits_small)
    with "1.prems" have len: "length (digits m) = 1"
      by simp
    have m: "m < 10"
    proof (rule ccontr)
      assume "\<not> m < 10"
      then have "2 \<le> length (digits m)" by (simp add: length_digits_large)
      with len show False by simp
    qed
    with True "1.prems" show ?thesis
      by (simp add: digits_small digit_char_inj del: nth_Cons_numeral)
  next
    case False
    have m: "\<not> m < 10"
    proof
      assume "m < 10"
      then have "length (digits m) = 1" by (simp add: digits_small)
      moreover from False have "2 \<le> length (digits n)" by (simp add: length_digits_large)
      ultimately show False using "1.prems" by simp
    qed
    from False m "1.prems" have eq: "digits (n div 10) = digits (m div 10)"
      and last: "''0123456789'' ! (n mod 10) = ''0123456789'' ! (m mod 10)"
      by (simp_all add: digits_large del: nth_Cons_numeral)
    from "1.IH" [OF False eq] have d: "n div 10 = m div 10" .
    from last have "n mod 10 = m mod 10"
      by (intro digit_char_inj) simp_all
    with d show ?thesis
      by (metis div_mult_mod_eq)
  qed
qed

lemma fmt_d_inj: "fmt_d i = fmt_d j \<Longrightarrow> i = j"
proof -
  assume eq: "fmt_d i = fmt_d j"
  have neg: "''-'' @ digits a \<noteq> digits b" for a b
    using hd_digits_not_minus [of b] digits_nonempty [of b] by (cases "digits b") auto
  show ?thesis
  proof (cases "i < 0")
    case True
    show ?thesis
    proof (cases "j < 0")
      case j: True
      with True eq have "nat (- i) = nat (- j)"
        by (simp add: fmt_d_def digits_inj)
      with True j show ?thesis by simp
    next
      case False
      with True eq neg [of "nat (- i)" "nat j"] show ?thesis
        by (simp add: fmt_d_def)
    qed
  next
    case False
    show ?thesis
    proof (cases "j < 0")
      case True
      with False eq neg [of "nat (- j)" "nat i"] show ?thesis
        by (simp add: fmt_d_def)
    next
      case j: False
      with False eq have "nat i = nat j"
        by (simp add: fmt_d_def digits_inj)
      with False j show ?thesis by simp
    qed
  qed
qed

text \<open>
  C3. When the asset's path can be stat'd, the constructor that \<open>asset_release_common\<close>
  writes holds a metadata record with the asset's name, the size that \<open>os.Stat\<close> reported,
  its mode bits, and its modification time in whole Unix seconds (the nanoseconds are not
  written).
\<close>

theorem metadata_record:
  \<open>os_Stat E (Path a) = Inr fi \<Longrightarrow>
   \<exists>pre post.
     asset_release_common E w a =
       Write E w
         (pre @
          ''info := bindata_file_info{name: '' @ strconv_Quote E (Name a) @
          '', size: '' @ fmt_d (sint (Size fi)) @
          '', mode: os.FileMode('' @ fmt_d (uint (Mode fi)) @
          ''), modTime: time.Unix('' @ fmt_d (sint (seconds (ModTime fi))) @ '', 0)}'' @
          post)\<close>
proof -
  assume st: "os_Stat E (Path a) = Inr fi"
  let ?pre = \<open>''func '' @ Func a @ ''() (*asset, error) {'' @ NL @
     TAB @ ''bytes, err := '' @ Func a @ ''_bytes()'' @ NL @
     TAB @ ''if err != nil {'' @ NL @
     TAB @ TAB @ ''return nil, err'' @ NL @
     TAB @ ''}'' @ NL @
     NL @
     TAB\<close>
  let ?post = \<open>NL @
     TAB @ ''a := &asset{bytes: bytes, info:  info}'' @ NL @
     TAB @ ''return a, nil'' @ NL @
     ''}'' @ NL @
     NL\<close>
  have "asset_release_common_text E a fi =
      ?pre @
      ''info := bindata_file_info{name: '' @ strconv_Quote E (Name a) @
      '', size: '' @ fmt_d (sint (Size fi)) @
      '', mode: os.FileMode('' @ fmt_d (uint (Mode fi)) @
      ''), modTime: time.Unix('' @ fmt_d (sint (seconds (ModTime fi))) @ '', 0)}'' @
      ?post"
    by (simp add: asset_release_common_text_def Unix_def)
  with st have "asset_release_common E w a =
      Write E w (?pre @
      ''info := bindata_file_info{name: '' @ strconv_Quote E (Name a) @
      '', size: '' @ fmt_d (sint (Size fi)) @
      '', mode: os.FileMode('' @ fmt_d (uint (Mode fi)) @
      ''), modTime: time.Unix('' @ fmt_d (sint (seconds (ModTime fi))) @ '', 0)}'' @
      ?post)"
    by (simp add: asset_release_common_def Fprintf_def)
  then show ?thesis by blast
qed

section \<open>Errors of the file system\<close>

text \<open>
  C9. When the asset's file cannot be opened, \<open>writeReleaseAsset\<close> returns the error of
  \<open>os.Open\<close> and leaves the output as it was: nothing is written for this asset.
\<close>

theorem open_error_writes_nothing:
  "os_Open E (Path a) = Inl e \<Longrightarrow> writeReleaseAsset E w c a = (w, Some e)"
  by (simp add: writeReleaseAsset_def)

lemma writeRelease_assets_append:
  "writeRelease_assets E w c (xs @ ys) =
     (case writeRelease_assets E w c xs of
        (w', Some e) \<Rightarrow> (w', Some e)
      | (w', None) \<Rightarrow> writeRelease_assets E w' c ys)"
  by (induction xs arbitrary: w) (simp_all split: prod.splits option.splits)

lemma writeRelease_append:
  "writeRelease E w c (xs @ ys) =
     (case writeRelease E w c xs of
        (w', Some e) \<Rightarrow> (w', Some e)
      | (w', None) \<Rightarrow> writeRelease_assets E w' c ys)"
  by (simp add: writeRelease_def writeRelease_assets_append split: prod.splits option.splits)

lemma writeRelease_stops_at:
  assumes "i < length toc"
    and "writeRelease E w c (take i toc) = (wi, None)"
    and "writeReleaseAsset E wi c (toc ! i) = (wx, Some e)"
  shows "writeRelease E w c toc = (wx, Some e)"
proof -
  from assms(1) have "toc = take i toc @ (toc ! i # drop (Suc i) toc)"
    by (simp add: id_take_nth_drop)
  then have "writeRelease E w c toc =
      writeRelease E w c (take i toc @ (toc ! i # drop (Suc i) toc))"
    by simp
  also have "\<dots> = (wx, Some e)"
    unfolding writeRelease_append using assms(2,3) by simp
  finally show ?thesis .
qed

text \<open>
  C4. Let the run reach asset \<open>i\<close>: the header and the assets before it were written
  without error, leaving the output in state \<open>wi\<close>. If the file of asset \<open>i\<close> cannot be
  opened, \<open>writeRelease\<close> returns that error with the output still at \<open>wi\<close>. If it opens
  and its literal is written (output \<open>wb\<close>) but the final stat fails, \<open>writeRelease\<close>
  returns the error of the stat with the output at \<open>wb\<close>. In both cases nothing of a
  later asset is written.
\<close>

theorem writeRelease_fatal_on_first_error:
  assumes "i < length toc"
    and "writeRelease E w c (take i toc) = (wi, None)"
  shows "(os_Open E (Path (toc ! i)) = Inl e \<longrightarrow> writeRelease E w c toc = (wi, Some e)) \<and>
         (os_Open E (Path (toc ! i)) = Inr fd \<and>
          writeReleaseAsset_emit E wi c (toc ! i) fd = (wb, None) \<and>
          os_Stat E (Path (toc ! i)) = Inl e
          \<longrightarrow> writeRelease E w c toc = (wb, Some e))"
proof (intro conjI impI)
  assume "os_Open E (Path (toc ! i)) = Inl e"
  then have "writeReleaseAsset E wi c (toc ! i) = (wi, Some e)"
    by (simp add: writeReleaseAsset_def)
  then show "writeRelease E w c toc = (wi, Some e)"
    by (rule writeRelease_stops_at [OF assms])
next
  assume "os_Open E (Path (toc ! i)) = Inr fd \<and>
          writeReleaseAsset_emit E wi c (toc ! i) fd = (wb, None) \<and>
          os_Stat E (Path (toc ! i)) = Inl e"
  then have "writeReleaseAsset E wi c (toc ! i) = (wb, Some e)"
    by (simp add: writeReleaseAsset_def asset_release_common_def)
  then show "writeRelease E w c toc = (wb, Some e)"
    by (rule writeRelease_stops_at [OF assms])
qed

section \<open>Determinism\<close>

lemma Fprintf_files [simp]:
  "Fprintf (E\<lparr>os_Open := opn, os_Stat := st\<rparr>) = Fprintf E"
  by (simp add: Fprintf_def fun_eq_iff)

lemma bytes_func_text_files [simp]:
  "bytes_func_text (E\<lparr>os_Open := opn, os_Stat := st\<rparr>) = bytes_func_text E"
  by (simp add: bytes_func_text_def fun_eq_iff)

lemma asset_release_common_text_files [simp]:
  "asset_release_common_text (E\<lparr>os_Open := opn, os_Stat := st\<rparr>) = asset_release_common_text E"
  by (simp add: asset_release_common_text_def fun_eq_iff)

lemma writeReleaseHeader_files:
  "writeReleaseHeader (E\<lparr>os_Open := opn, os_Stat := st\<rparr>) w c = writeReleaseHeader E w c"
  by (simp add: writeReleaseHeader_def header_uncompressed_nomemcopy_def
      header_uncompressed_memcopy_def header_compressed_nomemcopy_def
      header_compressed_memcopy_def header_release_common_def
      split: prod.splits option.splits)

lemma writeReleaseAsset_emit_files:
  "writeReleaseAsset_emit (E\<lparr>os_Open := opn, os_Stat := st\<rparr>) w c a fd =
   writeReleaseAsset_emit E w c a fd"
  by (simp add: writeReleaseAsset_emit_def uncompressed_nomemcopy_def
      uncompressed_memcopy_def compressed_memcopy_def compressed_nomemcopy_def
      memcopy_literal_def split: prod.splits option.splits)

lemma asset_release_common_files:
  "asset_release_common (E\<lparr>os_Open := opn, os_Stat := st\<rparr>) w a =
     (case st (Path a) of
        Inl e \<Rightarrow> (w, Some e)
      | Inr fi \<Rightarrow> Fprintf E w (asset_release_common_text E a fi))"
  by (simp add: asset_release_common_def split: sum.splits)

lemma writeReleaseAsset_files:
  assumes "opn1 (Path a) = opn2 (Path a)" and "st1 (Path a) = st2 (Path a)"
  shows "writeReleaseAsset (E\<lparr>os_Open := opn1, os_Stat := st1\<rparr>) w c a =
         writeReleaseAsset (E\<lparr>os_Open := opn2, os_Stat := st2\<rparr>) w c a"
  using assms
  by (simp add: writeReleaseAsset_def writeReleaseAsset_emit_files asset_release_common_files
      split: sum.splits prod.splits option.splits)

lemma writeRelease_assets_files:
  assumes "\<forall>a \<in> set toc. opn1 (Path a) = opn2 (Path a) \<and> st1 (Path a) = st2 (Path a)"
  shows "writeRelease_assets (E\<lparr>os_Open := opn1, os_Stat := st1\<rparr>) w c toc =
         writeRelease_assets (E\<lparr>os_Open := opn2, os_Stat := st2\<rparr>) w c toc"
  using assms
proof (induction toc arbitrary: w)
  case Nil
  show ?case by simp
next
  case (Cons a toc)
  from Cons.prems have here: "opn1 (Path a) = opn2 (Path a)" "st1 (Path a) = st2 (Path a)"
    and rest: "\<forall>a \<in> set toc. opn1 (Path a) = opn2 (Path a) \<and> st1 (Path a) = st2 (Path a)"
    by simp_all
  have step: "writeReleaseAsset (E\<lparr>os_Open := opn1, os_Stat := st1\<rparr>) w c a =
      writeReleaseAsset (E\<lparr>os_Open := opn2, os_Stat := st2\<rparr>) w c a"
    using here by (rule writeReleaseAsset_files)
  show ?case
    by (simp add: step Cons.IH [OF rest] split: prod.splits option.splits)
qed

subsection \<open>The same bytes in other chunks\<close>

lemma io_Copy_streaming:
  assumes "streaming wr"
  shows "io_Copy wr w ps fin =
     (case wr w (concat ps) of
        (w', Some e) \<Rightarrow> (w', Some e)
      | (w', None) \<Rightarrow> (w', fin))"
proof (induction ps arbitrary: w)
  case Nil
  from assms have "wr w [] = (w, None)" by (simp add: streaming_def)
  then show ?case by simp
next
  case (Cons p ps)
  from assms have split: "wr w (p @ concat ps) =
      (case wr w p of (w', Some e) \<Rightarrow> (w', Some e) | (w', None) \<Rightarrow> wr w' (concat ps))"
    by (simp add: streaming_def)
  show ?case
    by (simp add: split Cons.IH split: prod.splits option.splits)
qed

lemma writeReleaseAsset_emit_same_bytes:
  assumes "streaming (StringWriter_Write E)" and "streaming (gzip_Write E)"
    and "concat (chunks r) = concat (chunks r')" and "rerr r = rerr r'"
  shows "writeReleaseAsset_emit E w c a r = writeReleaseAsset_emit E w c a r'"
proof -
  have sw: "io_Copy (StringWriter_Write E) v (chunks r) (rerr r) =
      io_Copy (StringWriter_Write E) v (chunks r') (rerr r')" for v
    by (simp add: io_Copy_streaming [OF assms(1)] assms(3,4))
  have gz: "io_Copy (gzip_Write E) v (chunks r) (rerr r) =
      io_Copy (gzip_Write E) v (chunks r') (rerr r')" for v
    by (simp add: io_Copy_streaming [OF assms(2)] assms(3,4))
  have ra: "ioutil_ReadAll r = ioutil_ReadAll r'"
    by (simp add: ioutil_ReadAll_def assms(3,4))
  show ?thesis
    unfolding writeReleaseAsset_emit_def uncompressed_nomemcopy_def uncompressed_memcopy_def
      compressed_nomemcopy_def compressed_memcopy_def sw gz ra
    by (rule refl)
qed

lemma writeReleaseAsset_same_file:
  assumes "streaming (StringWriter_Write E)" and "streaming (gzip_Write E)"
    and "same_file (opn1 (Path a)) (opn2 (Path a))" and "st1 (Path a) = st2 (Path a)"
  shows "writeReleaseAsset (E\<lparr>os_Open := opn1, os_Stat := st1\<rparr>) w c a =
         writeReleaseAsset (E\<lparr>os_Open := opn2, os_Stat := st2\<rparr>) w c a"
proof (cases "opn1 (Path a)")
  case (Inl e)
  with assms(3) have "opn2 (Path a) = Inl e"
    by (cases "opn2 (Path a)") simp_all
  with Inl show ?thesis
    by (simp add: writeReleaseAsset_def)
next
  case (Inr r)
  with assms(3) obtain r' where r': "opn2 (Path a) = Inr r'"
    and same: "concat (chunks r) = concat (chunks r')" "rerr r = rerr r'"
    by (cases "opn2 (Path a)") simp_all
  have "writeReleaseAsset_emit E w c a r = writeReleaseAsset_emit E w c a r'"
    using assms(1,2) same by (rule writeReleaseAsset_emit_same_bytes)
  with Inr r' assms(4) show ?thesis
    by (simp add: writeReleaseAsset_def writeReleaseAsset_emit_files asset_release_common_files)
qed

lemma writeRelease_assets_same_files:
  assumes "streaming (StringWriter_Write E)" and "streaming (gzip_Write E)"
    and "\<forall>a \<in> set toc. same_file (opn1 (Path a)) (opn2 (Path a)) \<and> st1 (Path a) = st2 (Path a)"
  shows "writeRelease_assets (E\<lparr>os_Open := opn1, os_Stat := st1\<rparr>) w c toc =
         writeRelease_assets (E\<lparr>os_Open := opn2, os_Stat := st2\<rparr>) w c toc"
  using assms(3)
proof (induction toc arbitrary: w)
  case Nil
  show ?case by simp
next
  case (Cons a toc)
  from Cons.prems have here: "same_file (opn1 (Path a)) (opn2 (Path a))" "st1 (Path a) = st2 (Path a)"
    and rest: "\<forall>a \<in> set toc. same_file (opn1 (Path a)) (opn2 (Path a)) \<and> st1 (Path a) = st2 (Path a)"
    by simp_all
  have step: "writeReleaseAsset (E\<lparr>os_Open := opn1, os_Stat := st1\<rparr>) w c a =
      writeReleaseAsset (E\<lparr>os_Open := opn2, os_Stat := st2\<rparr>) w c a"
    using assms(1,2) here by (rule writeReleaseAsset_same_file)
  show ?case
    by (simp add: step Cons.IH [OF rest] split: prod.splits option.splits)
qed

subsection \<open>The assets in the order of the table\<close>

lemma foldl_stopped:
  "foldl (\<lambda>r a. case r of (w', Some e) \<Rightarrow> (w', Some e) | (w', None) \<Rightarrow> f w' a) (w, Some e) toc
     = (w, Some e)"
  by (induction toc) simp_all

lemma writeRelease_assets_foldl:
  "writeRelease_assets E w c toc =
     foldl (\<lambda>r a. case r of (w', Some e) \<Rightarrow> (w', Some e) | (w', None) \<Rightarrow> writeReleaseAsset E w' c a)
       (w, None) toc"
proof (induction toc arbitrary: w)
  case Nil
  show ?case by simp
next
  case (Cons a toc)
  show ?case
  proof (cases "writeReleaseAsset E w c a")
    case (Pair w' err)
    then show ?thesis
      by (cases err) (simp_all add: Cons.IH foldl_stopped)
  qed
qed

lemma writeRelease_foldl:
  "writeRelease E w c toc =
     foldl (\<lambda>r a. case r of (w', Some e) \<Rightarrow> (w', Some e) | (w', None) \<Rightarrow> writeReleaseAsset E w' c a)
       (writeReleaseHeader E w c) toc"
proof (cases "writeReleaseHeader E w c")
  case (Pair w' err)
  then show ?thesis
    by (cases err) (simp_all add: writeRelease_def writeRelease_assets_foldl foldl_stopped)
qed


subsection \<open>Buffered environments\<close>

lemma pre_pair: "(u @ w, h) = pre u (w, h)"
  by (simp add: pre_def)

lemma Fprintf_buffered: "buffered E \<Longrightarrow> Fprintf E s t = ((fst s @ t, snd s), None)"
  unfolding buffered_def Fprintf_def by blast

lemma io_Copy_pre:
  assumes "appends wr"
  shows "io_Copy wr (pre u s) ps fin = behind u (io_Copy wr s ps fin)"
proof (induction ps arbitrary: s)
  case Nil
  show ?case by (simp add: behind_def)
next
  case (Cons p ps)
  from assms have step: "wr (pre u s) p = behind u (wr s p)"
    unfolding appends_def by blast
  show ?case
  proof (cases "wr s p")
    case (Pair s' err)
    then show ?thesis
      by (cases err) (simp_all add: step behind_def Cons.IH)
  qed
qed

lemma Fprintf_pre:
  "buffered E \<Longrightarrow> Fprintf E (pre u s) t = behind u (Fprintf E s t)"
  by (simp add: Fprintf_buffered pre_def behind_def)

lemma behind_pair: "behind u (s, err) = (pre u s, err)"
  by (simp add: behind_def)

lemma uncompressed_nomemcopy_pre:
  assumes "buffered E"
  shows "uncompressed_nomemcopy E (pre u s) a r = behind u (uncompressed_nomemcopy E s a r)"
proof -
  from assms have sw: "appends (StringWriter_Write E)"
    unfolding buffered_def by blast
  obtain x where first: \<open>Fprintf E s (''var _'' @ Func a @ '' = "'') = (x, None)\<close>
    by (simp add: Fprintf_buffered [OF assms])
  obtain s2 err where copy: "io_Copy (StringWriter_Write E) x (chunks r) (rerr r) = (s2, err)"
    by (metis prod.collapse)
  have copy': "io_Copy (StringWriter_Write E) (pre u x) (chunks r) (rerr r) = (pre u s2, err)"
    by (simp add: io_Copy_pre [OF sw] copy behind_pair)
  show ?thesis
    unfolding uncompressed_nomemcopy_def Fprintf_pre [OF assms] first behind_pair
    by (cases err) (simp_all add: copy copy' Fprintf_pre [OF assms] behind_pair)
qed

lemma uncompressed_memcopy_pre:
  assumes "buffered E"
  shows "uncompressed_memcopy E (pre u s) a r = behind u (uncompressed_memcopy E s a r)"
proof -
  obtain x where first: \<open>Fprintf E s (''var _'' @ Func a @ '' = []byte('') = (x, None)\<close>
    by (simp add: Fprintf_buffered [OF assms])
  obtain b err where rd: "ioutil_ReadAll r = (b, err)"
    by (metis prod.collapse)
  obtain x2 where lit: "Fprintf E x (memcopy_literal E b) = (x2, None)"
    by (simp add: Fprintf_buffered [OF assms])
  show ?thesis
    unfolding uncompressed_memcopy_def Fprintf_pre [OF assms] first behind_pair
    by (cases err) (simp_all add: rd lit Fprintf_pre [OF assms] behind_pair)
qed

lemma compressed_tail_pre:
  assumes "buffered E"
  shows "(case io_Copy (gzip_Write E) (gzip_NewWriter E (pre u x)) ps fin of
            (w2, err) \<Rightarrow>
              (case gzip_Close E w2 of
                 (w3, _) \<Rightarrow>
                   (case err of
                      Some e \<Rightarrow> (w3, Some e)
                    | None \<Rightarrow> Fprintf E w3 t))) =
         behind u
           (case io_Copy (gzip_Write E) (gzip_NewWriter E x) ps fin of
              (w2, err) \<Rightarrow>
                (case gzip_Close E w2 of
                   (w3, _) \<Rightarrow>
                     (case err of
                        Some e \<Rightarrow> (w3, Some e)
                      | None \<Rightarrow> Fprintf E w3 t)))"
proof -
  from assms have gz: "appends (gzip_Write E)"
    and new: "gzip_NewWriter E (pre u x) = pre u (gzip_NewWriter E x)"
    and close: "gzip_Close E (pre u y) = behind u (gzip_Close E y)" for y
    unfolding buffered_def by blast+
  obtain s2 err where copy: "io_Copy (gzip_Write E) (gzip_NewWriter E x) ps fin = (s2, err)"
    by (metis prod.collapse)
  obtain s3 e3 where cl: "gzip_Close E s2 = (s3, e3)"
    by (metis prod.collapse)
  have copy': "io_Copy (gzip_Write E) (gzip_NewWriter E (pre u x)) ps fin = (pre u s2, err)"
    by (simp add: new io_Copy_pre [OF gz] copy behind_pair)
  have cl': "gzip_Close E (pre u s2) = (pre u s3, e3)"
    by (simp add: close cl behind_pair)
  show ?thesis
    by (cases err) (simp_all add: copy copy' cl cl' Fprintf_pre [OF assms] behind_pair)
qed

lemma compressed_nomemcopy_pre:
  assumes "buffered E"
  shows "compressed_nomemcopy E (pre u s) a r = behind u (compressed_nomemcopy E s a r)"
proof -
  obtain x where first: \<open>Fprintf E s (''var _'' @ Func a @ '' = "'') = (x, None)\<close>
    by (simp add: Fprintf_buffered [OF assms])
  show ?thesis
    unfolding compressed_nomemcopy_def Fprintf_pre [OF assms] first behind_pair
    by (simp add: compressed_tail_pre [OF assms])
qed

lemma compressed_memcopy_pre:
  assumes "buffered E"
  shows "compressed_memcopy E (pre u s) a r = behind u (compressed_memcopy E s a r)"
proof -
  obtain x where first: \<open>Fprintf E s (''var _'' @ Func a @ '' = []byte("'') = (x, None)\<close>
    by (simp add: Fprintf_buffered [OF assms])
  show ?thesis
    unfolding compressed_memcopy_def Fprintf_pre [OF assms] first behind_pair
    by (simp add: compressed_tail_pre [OF assms])
qed

lemma asset_release_common_pre:
  assumes "buffered E"
  shows "asset_release_common E (pre u s) a = behind u (asset_release_common E s a)"
  by (cases "os_Stat E (Path a)")
    (simp_all add: asset_release_common_def Fprintf_pre [OF assms] behind_pair)

lemma writeReleaseAsset_pre:
  assumes "buffered E"
  shows "writeReleaseAsset E (pre u s) c a = behind u (writeReleaseAsset E s c a)"
proof (cases "os_Open E (Path a)")
  case (Inl e)
  then show ?thesis
    by (simp add: writeReleaseAsset_def behind_pair)
next
  case (Inr fd)
  have emit: "writeReleaseAsset_emit E (pre u s) c a fd =
      behind u (writeReleaseAsset_emit E s c a fd)"
    by (simp add: writeReleaseAsset_emit_def uncompressed_nomemcopy_pre [OF assms]
        uncompressed_memcopy_pre [OF assms] compressed_nomemcopy_pre [OF assms]
        compressed_memcopy_pre [OF assms])
  obtain s1 err where res: "writeReleaseAsset_emit E s c a fd = (s1, err)"
    by (metis prod.collapse)
  show ?thesis
    by (cases err)
      (simp_all add: writeReleaseAsset_def Inr emit res behind_pair
        asset_release_common_pre [OF assms])
qed

lemma writeReleaseHeader_buffered:
  assumes "buffered E"
  shows "writeReleaseHeader E (u, h) c = ((u @ fst (fst (writeReleaseHeader E ([], h) c)), h), None)"
  by (simp add: writeReleaseHeader_def header_uncompressed_nomemcopy_def
      header_uncompressed_memcopy_def header_compressed_nomemcopy_def
      header_compressed_memcopy_def header_release_common_def Fprintf_buffered [OF assms])

lemma length_asset_texts: "length (asset_texts E c h toc) = length toc"
  by (induction toc arbitrary: h) (simp_all split: prod.splits)

lemma writeRelease_assets_buffered:
  assumes "buffered E"
  shows "writeRelease_assets E (u, h) c toc = (s', None) \<Longrightarrow>
         fst s' = u @ concat (asset_texts E c h toc)"
proof (induction toc arbitrary: u h)
  case Nil
  then show ?case by auto
next
  case (Cons a toc)
  obtain t h' err where one: "writeReleaseAsset E ([], h) c a = ((t, h'), err)"
    by (metis prod.collapse)
  have "writeReleaseAsset E (pre u ([], h)) c a = behind u ((t, h'), err)"
    using writeReleaseAsset_pre [OF assms, of u "([], h)" c a] one by simp
  then have here: "writeReleaseAsset E (u, h) c a = ((u @ t, h'), err)"
    by (simp add: pre_def behind_def)
  show ?case
  proof (cases err)
    case None
    with Cons.prems here have "writeRelease_assets E (u @ t, h') c toc = (s', None)"
      by simp
    from Cons.IH [OF this] one show ?thesis by simp
  next
    case (Some e)
    with Cons.prems here show ?thesis by simp
  qed
qed

lemma writeRelease_buffered:
  assumes "buffered E" and "snd (writeRelease E (u, h) c toc) = None"
  shows "fst (fst (writeRelease E (u, h) c toc)) =
     u @ fst (fst (writeReleaseHeader E ([], h) c)) @ concat (asset_texts E c h toc)"
proof -
  let ?hd = "fst (fst (writeReleaseHeader E ([], h) c))"
  have run: "writeRelease E (u, h) c toc = writeRelease_assets E (u @ ?hd, h) c toc"
    by (simp add: writeRelease_def writeReleaseHeader_buffered [OF assms(1), of u])
  with assms(2) have "writeRelease_assets E (u @ ?hd, h) c toc =
      (fst (writeRelease_assets E (u @ ?hd, h) c toc), None)"
    by (simp add: prod_eq_iff)
  from writeRelease_assets_buffered [OF assms(1) this] run show ?thesis
    by simp
qed

text \<open>
  C8. Two runs of \<open>writeRelease\<close> with the same flags, the same table of contents and
  file systems that deliver the same for every path of the table give the same output and
  the same result. This also holds when the same bytes come in other chunks, the
  \<open>StringWriter\<close> and the compression stream being streams. A run hands the assets to
  \<open>writeReleaseAsset\<close> one after the other in the order of the table, each of them once,
  until one fails. When the writer is a byte buffer and the run succeeds, the output is
  the header followed by the texts of the assets in the order of the table, one text for
  every asset.
\<close>

theorem writeRelease_deterministic:
  "((\<forall>a \<in> set toc. opn1 (Path a) = opn2 (Path a) \<and> st1 (Path a) = st2 (Path a)) \<longrightarrow>
      writeRelease (E\<lparr>os_Open := opn1, os_Stat := st1\<rparr>) w c toc =
      writeRelease (E\<lparr>os_Open := opn2, os_Stat := st2\<rparr>) w c toc) \<and>
   ((\<forall>a \<in> set toc. same_file (opn1 (Path a)) (opn2 (Path a)) \<and> st1 (Path a) = st2 (Path a)) \<and>
    streaming (StringWriter_Write E) \<and> streaming (gzip_Write E) \<longrightarrow>
      writeRelease (E\<lparr>os_Open := opn1, os_Stat := st1\<rparr>) w c toc =
      writeRelease (E\<lparr>os_Open := opn2, os_Stat := st2\<rparr>) w c toc) \<and>
   writeRelease E w c toc =
     foldl (\<lambda>r a. case r of (w', Some e) \<Rightarrow> (w', Some e) | (w', None) \<Rightarrow> writeReleaseAsset E w' c a)
       (writeReleaseHeader E w c) toc \<and>
   (buffered B \<and> snd (writeRelease B (u, h) c toc) = None \<longrightarrow>
      length (asset_texts B c h toc) = length toc \<and>
      fst (fst (writeRelease B (u, h) c toc)) =
        u @ fst (fst (writeReleaseHeader B ([], h) c)) @ concat (asset_texts B c h toc))"
proof (intro conjI impI)
  assume "\<forall>a \<in> set toc. opn1 (Path a) = opn2 (Path a) \<and> st1 (Path a) = st2 (Path a)"
  then show "writeRelease (E\<lparr>os_Open := opn1, os_Stat := st1\<rparr>) w c toc =
        writeRelease (E\<lparr>os_Open := opn2, os_Stat := st2\<rparr>) w c toc"
    by (simp add: writeRelease_def writeReleaseHeader_files
        writeRelease_assets_files split: prod.splits option.splits)
next
  assume same: "(\<forall>a \<in> set toc. same_file (opn1 (Path a)) (opn2 (Path a)) \<and> st1 (Path a) = st2 (Path a)) \<and>
    streaming (StringWriter_Write E) \<and> streaming (gzip_Write E)"
  then have sw: "streaming (StringWriter_Write E)" and gz: "streaming (gzip_Write E)"
    and files: "\<forall>a \<in> set toc. same_file (opn1 (Path a)) (opn2 (Path a)) \<and> st1 (Path a) = st2 (Path a)"
    by simp_all
  show "writeRelease (E\<lparr>os_Open := opn1, os_Stat := st1\<rparr>) w c toc =
        writeRelease (E\<lparr>os_Open := opn2, os_Stat := st2\<rparr>) w c toc"
    by (simp add: writeRelease_def writeReleaseHeader_files
        writeRelease_assets_same_files [OF sw gz files] split: prod.splits option.splits)
next
  show "writeRelease E w c toc =
     foldl (\<lambda>r a. case r of (w', Some e) \<Rightarrow> (w', Some e) | (w', None) \<Rightarrow> writeReleaseAsset E w' c a)
       (writeReleaseHeader E w c) toc"
    by (rule writeRelease_foldl)
next
  show "length (asset_texts B c h toc) = length toc"
    by (rule length_asset_texts)
next
  assume "buffered B \<and> snd (writeRelease B (u, h) c toc) = None"
  then have "buffered B" and "snd (writeRelease B (u, h) c toc) = None"
    by simp_all
  then show "fst (fst (writeRelease B (u, h) c toc)) =
      u @ fst (fst (writeReleaseHeader B ([], h) c)) @ concat (asset_texts B c h toc)"
    by (rule writeRelease_buffered)
qed

section \<open>The raw literal and carriage returns\<close>

lemmas scan_defs = go_string_value_def sanitize_def in_range_def

text \<open>
  C1. The claim fails on the code for an input with a carriage return: \<open>crlf_text\<close> is
  valid UTF-8, \<open>sanitize\<close> leaves its carriage return in the raw literal, and the
  literal's value is the text without it.
\<close>

theorem sanitize_loses_carriage_return:
  "utf8_Valid crlf_text \<and>
   sanitize crlf_text = crlf_text \<and>
   go_string_value (''`'' @ sanitize crlf_text @ ''`'') = Some (''a'' @ NL @ ''b'')"
  by (simp add: scan_defs crlf_text_def)

text \<open>
  The literal of the copying, uncompressed emitter reads back as the content of the file
  when that is valid UTF-8 without carriage returns and NUL bytes.
\<close>

lemma memcopy_literal_roundtrip:
  "utf8_Valid b \<Longrightarrow> CHR 0x0D \<notin> set b \<Longrightarrow> CHR 0x00 \<notin> set b \<Longrightarrow>
   go_string_value (memcopy_literal E b) = Some b"
  using sanitize_roundtrip [of b] by (simp add: memcopy_literal_def)

text \<open>
  C5. The copying, uncompressed emitter run on a file that holds \<open>crlf_text\<close>: the bytes
  are valid UTF-8, so they are written as a raw literal, and the value of that literal is
  not the content of the file.
\<close>

theorem uncompressed_memcopy_loses_carriage_return:
  \<open>uncompressed_memcopy (buffer_env (one_file crlf_text) (one_stat crlf_text)) [] a_txt
      \<lparr> chunks = [crlf_text], rerr = None \<rparr> =
     (''var _a_txt = []byte('' @ ''`'' @ crlf_text @ ''`'' @ '')'' @ NL @
      NL @
      ''func a_txt_bytes() ([]byte, error) {'' @ NL @
      TAB @ ''return _a_txt, nil'' @ NL @
      ''}'' @ NL @
      NL, None) \<and>
   go_string_value (''`'' @ crlf_text @ ''`'') = Some (''a'' @ NL @ ''b'') \<and>
   ''a'' @ NL @ ''b'' \<noteq> crlf_text\<close>
  by (simp add: scan_defs emitter_defs text_defs concrete_defs crlf_text_def)

section \<open>The zero-copy, uncompressed emitter\<close>

lemma io_Copy_no_write_error:
  "\<forall>w p. snd (wr w p) = None \<Longrightarrow>
   io_Copy wr w ps fin = (foldl (\<lambda>w p. fst (wr w p)) w ps, fin)"
proof (induction ps arbitrary: w)
  case Nil
  show ?case by simp
next
  case (Cons p ps)
  obtain w' where step: "wr w p = (w', None)"
    using Cons.prems by (metis prod.collapse)
  show ?case
    by (simp add: step Cons.IH [OF Cons.prems])
qed

text \<open>
  C6, as the code has it. With a writer and a \<open>StringWriter\<close> that accept every write,
  the zero-copy, uncompressed emitter writes the opening of the literal, hands every chunk
  of the file to the \<open>StringWriter\<close> as it was read, in order, and then, unless reading
  failed, writes the closing quote and the function. \<open>sanitize\<close> takes no part.
\<close>

theorem zero_copy_streams_through_StringWriter:
  assumes "\<forall>w p. snd (Write E w p) = None"
    and "\<forall>w p. snd (StringWriter_Write E w p) = None"
  shows \<open>uncompressed_nomemcopy E w a r =
     (let w1 = fst (Write E w (''var _'' @ Func a @ '' = "''));
          w2 = foldl (\<lambda>w p. fst (StringWriter_Write E w p)) w1 (chunks r)
      in case rerr r of
           Some e \<Rightarrow> (w2, Some e)
         | None \<Rightarrow> (fst (Write E w2 (''"'' @ bytes_func_text E a)), None))\<close>
proof -
  obtain w1 where first_write: \<open>Write E w (''var _'' @ Func a @ '' = "'') = (w1, None)\<close>
    using assms(1) by (metis prod.collapse)
  let ?w2 = "foldl (\<lambda>w p. fst (StringWriter_Write E w p)) w1 (chunks r)"
  obtain w3 where last_write: \<open>Write E ?w2 (''"'' @ bytes_func_text E a) = (w3, None)\<close>
    using assms(1) by (metis prod.collapse)
  have copy: "io_Copy (StringWriter_Write E) w1 (chunks r) (rerr r) = (?w2, rerr r)"
    using assms(2) by (rule io_Copy_no_write_error)
  show ?thesis
  proof (cases "rerr r")
    case None
    with copy have "io_Copy (StringWriter_Write E) w1 (chunks r) None = (?w2, None)"
      by simp
    with None first_write last_write show ?thesis
      by (simp add: uncompressed_nomemcopy_def Fprintf_def Let_def)
  next
    case (Some e)
    with copy have "io_Copy (StringWriter_Write E) w1 (chunks r) (Some e) = (?w2, Some e)"
      by simp
    with Some first_write show ?thesis
      by (simp add: uncompressed_nomemcopy_def Fprintf_def Let_def)
  qed
qed

theorem zero_copy_streams_through_StringWriter_witness:
  \<open>uncompressed_nomemcopy (buffer_env (one_file ''`'') (one_stat ''`'')) [] a_txt
      \<lparr> chunks = [''`''], rerr = None \<rparr> =
     (''var _a_txt = "'' @ BSL @ ''x60"'' @ NL @
      NL @
      ''func a_txt_bytes() ([]byte, error) {'' @ NL @
      TAB @ ''return bindata_read('' @ NL @
      TAB @ TAB @ ''_a_txt,'' @ NL @
      TAB @ TAB @ ''"a.txt",'' @ NL @
      TAB @ '')'' @ NL @
      ''}'' @ NL @
      NL, None)\<close>
proof -
  let ?E = "buffer_env (one_file ''`'') (one_stat ''`'')"
  have a: "\<forall>w p. snd (Write ?E w p) = None"
    by (simp add: buffer_env_def)
  have b: "\<forall>w p. snd (StringWriter_Write ?E w p) = None"
    by (simp add: buffer_env_def)
  show ?thesis
    unfolding zero_copy_streams_through_StringWriter [OF a b]
    by (simp add: text_defs concrete_defs)
qed

text \<open>
  C6, as stated, fails: for a file that holds one back quote the literal that the
  zero-copy, uncompressed emitter writes is not the sanitized content between the quotes.
\<close>

theorem zero_copy_not_sanitized:
  \<open>uncompressed_nomemcopy (buffer_env (one_file ''`'') (one_stat ''`'')) [] a_txt
      \<lparr> chunks = [''`''], rerr = None \<rparr> \<noteq>
     (''var _a_txt = "'' @ sanitize ''`'' @ ''"'' @
      bytes_func_text (buffer_env (one_file ''`'') (one_stat ''`'')) a_txt, None)\<close>
  by (simp add: emitter_defs text_defs concrete_defs sanitize_def)

section \<open>Errors of the compression stream\<close>

text \<open>
  C7, as the code has it. On the compressed paths, when the copy into the compression
  stream fails, the emitter and \<open>writeReleaseAsset\<close> return the error of the copy as it
  is; nothing is written after the stream is closed.
\<close>

theorem compression_error_returned_unchanged:
  assumes "\<not> NoCompress c"
    and "os_Open E (Path a) = Inr r"
    and \<open>Fprintf E w (''var _'' @ Func a @ (if NoMemCopy c then '' = "'' else '' = []byte("''))
          = (w1, None)\<close>
    and "io_Copy (gzip_Write E) (gzip_NewWriter E w1) (chunks r) (rerr r) = (w2, Some e)"
  shows "writeReleaseAsset_emit E w c a r = (fst (gzip_Close E w2), Some e) \<and>
         writeReleaseAsset E w c a = (fst (gzip_Close E w2), Some e)"
proof -
  have "writeReleaseAsset_emit E w c a r = (fst (gzip_Close E w2), Some e)"
    using assms(1,3,4)
    by (auto simp: writeReleaseAsset_emit_def compressed_nomemcopy_def compressed_memcopy_def
        split: prod.splits if_splits)
  with assms(2) show ?thesis
    by (simp add: writeReleaseAsset_def)
qed

theorem compression_error_returned_unchanged_witness:
  \<open>writeReleaseAsset (failing_gzip_env (one_file ''hi'') (one_stat ''hi'')) []
      \<lparr> NoCompress = False, NoMemCopy = True \<rparr> a_txt =
     (''var _a_txt = "'', Some ''short write'')\<close>
proof -
  let ?E = "failing_gzip_env (one_file ''hi'') (one_stat ''hi'')"
  let ?c = "\<lparr> NoCompress = False, NoMemCopy = True \<rparr>"
  let ?r = "\<lparr> chunks = [''hi''], rerr = None \<rparr> :: string Reader"
  have h1: "\<not> NoCompress ?c" by simp
  have h2: "os_Open ?E (Path a_txt) = Inr ?r"
    by (simp add: concrete_defs failing_gzip_env_def)
  have h3: \<open>Fprintf ?E [] (''var _'' @ Func a_txt @
      (if NoMemCopy ?c then '' = "'' else '' = []byte("'')) = (''var _a_txt = "'', None)\<close>
    by (simp add: concrete_defs failing_gzip_env_def Fprintf_def)
  have h4: \<open>io_Copy (gzip_Write ?E) (gzip_NewWriter ?E ''var _a_txt = "'') (chunks ?r) (rerr ?r)
      = (''var _a_txt = "'', Some ''short write'')\<close>
    by (simp add: concrete_defs failing_gzip_env_def)
  from compression_error_returned_unchanged [OF h1 h2 h3 h4] show ?thesis
    by (simp add: concrete_defs failing_gzip_env_def)
qed

text \<open>
  C7, as stated, fails: the error that comes back when the compression stream rejects a
  write is the error of the stream, and the name of the asset is no part of it.
\<close>

theorem compression_error_without_name:
  \<open>snd (writeReleaseAsset (failing_gzip_env (one_file ''hi'') (one_stat ''hi'')) []
      \<lparr> NoCompress = False, NoMemCopy = True \<rparr> a_txt) = Some ''short write'' \<and>
   snd (writeReleaseAsset (failing_gzip_env (one_file ''hi'') (one_stat ''hi'')) []
      \<lparr> NoCompress = False, NoMemCopy = False \<rparr> a_txt) = Some ''short write'' \<and>
   Name a_txt = ''a.txt'' \<and>
   \<not> sublist (Name a_txt) ''short write''\<close>
proof -
  have "\<not> sublist ''a.txt'' ''short write''"
    by code_simp
  then show ?thesis
    by (simp add: emitter_defs concrete_defs failing_gzip_env_def)
qed

section \<open>Instances on the concrete environment\<close>

lemmas run_defs =
  writeRelease_def writeReleaseHeader_def header_uncompressed_nomemcopy_def
  header_uncompressed_memcopy_def header_compressed_nomemcopy_def
  header_compressed_memcopy_def header_release_common_def

theorem strategy_selection_witness:
  "writeRelease (buffer_env (one_file ''hi'') (one_stat ''hi'')) [] uncompressed_copy
     [a_txt, missing_txt] =
   generate UncompressedCopy (buffer_env (one_file ''hi'') (one_stat ''hi'')) []
     [a_txt, missing_txt]"
proof -
  have "strategy_of uncompressed_copy = UncompressedCopy"
    by (simp add: strategy_of_def select_def uncompressed_copy_def)
  with strategy_selection
    [of "buffer_env (one_file ''hi'') (one_stat ''hi'')" "[]" uncompressed_copy a_txt
      "[a_txt, missing_txt]"]
  show ?thesis by simp
qed

theorem metadata_record_witness:
  \<open>os_Stat (buffer_env (one_file ''hi'') (one_stat ''hi'')) (Path a_txt) =
     Inr \<lparr> Size = 2, Mode = 0x1A4,
           ModTime = \<lparr> seconds = 1400000000, nanoseconds = 987654321 \<rparr> \<rparr> \<and>
   (\<exists>pre post.
      asset_release_common (buffer_env (one_file ''hi'') (one_stat ''hi'')) [] a_txt =
        ((pre @
          ''info := bindata_file_info{name: "a.txt", size: 2, mode: os.FileMode(420), modTime: time.Unix(1400000000, 0)}'' @
          post), None))\<close>
proof -
  let ?E = "buffer_env (one_file ''hi'') (one_stat ''hi'')"
  let ?fi = "\<lparr> Size = 2, Mode = 0x1A4,
           ModTime = \<lparr> seconds = 1400000000, nanoseconds = 987654321 \<rparr> \<rparr>"
  have st: "os_Stat ?E (Path a_txt) = Inr ?fi"
    by (simp add: concrete_defs)
  from metadata_record [OF st, of "[]"] obtain pre post where
    \<open>asset_release_common ?E [] a_txt =
       Write ?E []
         (pre @
          ''info := bindata_file_info{name: '' @ strconv_Quote ?E (Name a_txt) @
          '', size: '' @ fmt_d (sint (Size ?fi)) @
          '', mode: os.FileMode('' @ fmt_d (uint (Mode ?fi)) @
          ''), modTime: time.Unix('' @ fmt_d (sint (seconds (ModTime ?fi))) @ '', 0)}'' @
          post)\<close>
    by blast
  then have \<open>asset_release_common ?E [] a_txt =
        ((pre @
          ''info := bindata_file_info{name: "a.txt", size: 2, mode: os.FileMode(420), modTime: time.Unix(1400000000, 0)}'' @
          post), None)\<close>
    by (simp add: concrete_defs fmt_eval)
  with st show ?thesis by blast
qed

theorem open_error_writes_nothing_witness:
  "os_Open (buffer_env (one_file ''hi'') (one_stat ''hi'')) (Path missing_txt) =
     Inl ''open missing.txt: no such file or directory'' \<and>
   writeReleaseAsset (buffer_env (one_file ''hi'') (one_stat ''hi'')) ''package main''
     uncompressed_copy missing_txt =
     (''package main'', Some ''open missing.txt: no such file or directory'')"
proof -
  have h: "os_Open (buffer_env (one_file ''hi'') (one_stat ''hi'')) (Path missing_txt) =
     Inl ''open missing.txt: no such file or directory''"
    by (simp add: concrete_defs missing_txt_def)
  from h open_error_writes_nothing [OF h] show ?thesis by simp
qed

text \<open>
  A run over three assets whose second file is missing, and a run over one asset whose
  file can be read but not stat'd.
\<close>

theorem writeRelease_fatal_on_first_error_witness:
  "writeRelease (buffer_env (one_file ''hi'') (one_stat ''hi'')) [] uncompressed_copy
     [a_txt, missing_txt, a_txt] =
     (fst (writeRelease (buffer_env (one_file ''hi'') (one_stat ''hi'')) []
        uncompressed_copy [a_txt]),
      Some ''open missing.txt: no such file or directory'') \<and>
   writeRelease (buffer_env (one_file ''hi'') (\<lambda>p. Inl ''stat failed'')) [] uncompressed_copy
     [a_txt, a_txt] =
     (fst (uncompressed_memcopy (buffer_env (one_file ''hi'') (\<lambda>p. Inl ''stat failed''))
        (header_uncompressed_memcopy_text @ header_release_common_text) a_txt
        \<lparr> chunks = [''hi''], rerr = None \<rparr>),
      Some ''stat failed'')"
proof (rule conjI)
  let ?E = "buffer_env (one_file ''hi'') (one_stat ''hi'')"
  let ?toc = "[a_txt, missing_txt, a_txt]"
  let ?wi = "fst (writeRelease ?E [] uncompressed_copy [a_txt])"
  have h1: "1 < length ?toc" by simp
  have "snd (writeRelease ?E [] uncompressed_copy [a_txt]) = None"
    by (simp add: run_defs emitter_defs concrete_defs uncompressed_copy_def)
  then have h2: "writeRelease ?E [] uncompressed_copy (take 1 ?toc) = (?wi, None)"
    by (simp add: prod_eq_iff)
  have h3: "os_Open ?E (Path (?toc ! 1)) = Inl ''open missing.txt: no such file or directory''"
    by (simp add: concrete_defs missing_txt_def)
  from writeRelease_fatal_on_first_error [OF h1 h2] h3
  show "writeRelease ?E [] uncompressed_copy ?toc =
      (?wi, Some ''open missing.txt: no such file or directory'')"
    by blast
next
  let ?E = "buffer_env (one_file ''hi'') (\<lambda>p. Inl ''stat failed'')"
  let ?toc = "[a_txt, a_txt]"
  let ?wi = "header_uncompressed_memcopy_text @ header_release_common_text"
  let ?fd = "\<lparr> chunks = [''hi''], rerr = None \<rparr> :: string Reader"
  let ?wb = "fst (uncompressed_memcopy ?E ?wi a_txt ?fd)"
  have h1: "0 < length ?toc" by simp
  have h2: "writeRelease ?E [] uncompressed_copy (take 0 ?toc) = (?wi, None)"
    by (simp add: run_defs concrete_defs uncompressed_copy_def Fprintf_def)
  have h3: "os_Open ?E (Path (?toc ! 0)) = Inr ?fd"
    by (simp add: concrete_defs)
  have "snd (uncompressed_memcopy ?E ?wi a_txt ?fd) = None"
    by (simp add: emitter_defs concrete_defs)
  then have h4: "writeReleaseAsset_emit ?E ?wi uncompressed_copy (?toc ! 0) ?fd = (?wb, None)"
    by (simp add: writeReleaseAsset_emit_def uncompressed_copy_def prod_eq_iff)
  have h5: "os_Stat ?E (Path (?toc ! 0)) = Inl ''stat failed''"
    by (simp add: concrete_defs)
  from writeRelease_fatal_on_first_error [OF h1 h2] h3 h4 h5
  show "writeRelease ?E [] uncompressed_copy ?toc = (?wb, Some ''stat failed'')"
    by blast
qed

text \<open>
  The same file delivered in one read and in two, on the compressed zero-copy path, and
  the output of that run over two assets.
\<close>

theorem writeRelease_deterministic_witness:
  \<open>one_file ''hi'' ''b.txt'' \<noteq>
     (\<lambda>p. if p = ''a.txt'' then one_file ''hi'' p else one_file ''ho'' ''a.txt'') ''b.txt'' \<and>
   writeRelease
     ((buffering_env (one_file ''hi'') (one_stat ''hi''))
        \<lparr>os_Open := one_file ''hi'', os_Stat := one_stat ''hi''\<rparr>)
     ([], []) compressed_zero_copy [a_txt, a_txt] =
   writeRelease
     ((buffering_env (one_file ''hi'') (one_stat ''hi''))
        \<lparr>os_Open := (\<lambda>p. if p = ''a.txt'' then one_file ''hi'' p else one_file ''ho'' ''a.txt''),
          os_Stat := one_stat ''hi''\<rparr>)
     ([], []) compressed_zero_copy [a_txt, a_txt] \<and>
   one_file ''hi'' ''a.txt'' \<noteq> one_file_in_two_reads ''hi'' ''a.txt'' \<and>
   same_file (one_file ''hi'' ''a.txt'') (one_file_in_two_reads ''hi'' ''a.txt'') \<and>
   writeRelease
     ((buffering_env (one_file ''hi'') (one_stat ''hi''))
        \<lparr>os_Open := one_file ''hi'', os_Stat := one_stat ''hi''\<rparr>)
     ([], []) compressed_zero_copy [a_txt, a_txt] =
   writeRelease
     ((buffering_env (one_file ''hi'') (one_stat ''hi''))
        \<lparr>os_Open := one_file_in_two_reads ''hi'', os_Stat := one_stat ''hi''\<rparr>)
     ([], []) compressed_zero_copy [a_txt, a_txt] \<and>
   buffered (buffering_env (one_file ''hi'') (one_stat ''hi'')) \<and>
   snd (writeRelease (buffering_env (one_file ''hi'') (one_stat ''hi'')) ([], [])
     compressed_zero_copy [a_txt, a_txt]) = None \<and>
   fst (fst (writeRelease (buffering_env (one_file ''hi'') (one_stat ''hi'')) ([], [])
     compressed_zero_copy [a_txt, a_txt])) =
     fst (fst (writeReleaseHeader (buffering_env (one_file ''hi'') (one_stat ''hi'')) ([], [])
       compressed_zero_copy)) @
     concat (asset_texts (buffering_env (one_file ''hi'') (one_stat ''hi'')) compressed_zero_copy
       [] [a_txt, a_txt]) \<and>
   asset_texts (buffering_env (one_file ''hi'') (one_stat ''hi'')) compressed_zero_copy
       [] [a_txt, a_txt] =
     replicate 2
       (''var _a_txt = "'' @ BSL @ ''x68'' @ BSL @ ''x69"'' @
        bytes_func_text (buffering_env (one_file ''hi'') (one_stat ''hi'')) a_txt @
        asset_release_common_text (buffering_env (one_file ''hi'') (one_stat ''hi'')) a_txt
          \<lparr> Size = 2, Mode = 0x1A4,
            ModTime = \<lparr> seconds = 1400000000, nanoseconds = 987654321 \<rparr> \<rparr>)\<close>
proof -
  let ?E = "buffering_env (one_file ''hi'') (one_stat ''hi'')"
  let ?toc = "[a_txt, a_txt]"
  have differ: "one_file ''hi'' ''a.txt'' \<noteq> one_file_in_two_reads ''hi'' ''a.txt''"
    by (simp add: one_file_def one_file_in_two_reads_def)
  have same: "same_file (one_file ''hi'' ''a.txt'') (one_file_in_two_reads ''hi'' ''a.txt'')"
    by (simp add: one_file_def one_file_in_two_reads_def)
  then have files: "\<forall>a \<in> set ?toc.
      same_file (one_file ''hi'' (Path a)) (one_file_in_two_reads ''hi'' (Path a)) \<and>
      one_stat ''hi'' (Path a) = one_stat ''hi'' (Path a)"
    by (simp add: a_txt_def)
  have sw: "streaming (StringWriter_Write ?E)"
    by (simp add: streaming_def buffering_env_def StringWriter_escape_def)
  have gz: "streaming (gzip_Write ?E)"
    by (simp add: streaming_def buffering_env_def)
  have buf: "buffered ?E"
    by (simp add: buffered_def appends_def pre_def behind_def buffering_env_def)
  have ok: "snd (writeRelease ?E ([], []) compressed_zero_copy ?toc) = None"
    by (simp add: run_defs emitter_defs buffering_env_def one_file_def one_stat_def a_txt_def
        compressed_zero_copy_def)
  have texts: \<open>asset_texts ?E compressed_zero_copy [] ?toc =
     replicate 2
       (''var _a_txt = "'' @ BSL @ ''x68'' @ BSL @ ''x69"'' @
        bytes_func_text ?E a_txt @
        asset_release_common_text ?E a_txt
          \<lparr> Size = 2, Mode = 0x1A4,
            ModTime = \<lparr> seconds = 1400000000, nanoseconds = 987654321 \<rparr> \<rparr>)\<close>
    by (simp add: emitter_defs buffering_env_def one_file_def one_stat_def a_txt_def
        compressed_zero_copy_def StringWriter_escape_def lowerHex_def numeral_2_eq_2)
  let ?opn = "\<lambda>p. if p = ''a.txt'' then one_file ''hi'' p else one_file ''ho'' ''a.txt''"
  have elsewhere: "one_file ''hi'' ''b.txt'' \<noteq> ?opn ''b.txt''"
    by (simp add: one_file_def)
  have agree: "\<forall>a \<in> set ?toc.
      one_file ''hi'' (Path a) = ?opn (Path a) \<and> one_stat ''hi'' (Path a) = one_stat ''hi'' (Path a)"
    by (simp add: a_txt_def)
  have zero: "writeRelease (?E\<lparr>os_Open := one_file ''hi'', os_Stat := one_stat ''hi''\<rparr>)
      ([], []) compressed_zero_copy ?toc =
    writeRelease (?E\<lparr>os_Open := ?opn, os_Stat := one_stat ''hi''\<rparr>)
      ([], []) compressed_zero_copy ?toc"
    using agree writeRelease_deterministic
      [where toc = ?toc and ?opn1.0 = "one_file ''hi''" and ?opn2.0 = ?opn
        and ?st1.0 = "one_stat ''hi''" and ?st2.0 = "one_stat ''hi''" and E = ?E
        and w = "([], [])" and c = compressed_zero_copy, THEN conjunct1]
    by (simp only: simp_thms)
  note run = writeRelease_deterministic
    [where toc = ?toc and ?opn1.0 = "one_file ''hi''" and ?opn2.0 = "one_file_in_two_reads ''hi''"
      and ?st1.0 = "one_stat ''hi''" and ?st2.0 = "one_stat ''hi''" and E = ?E
      and w = "([], [])" and c = compressed_zero_copy and B = ?E and u = "[]" and h = "[]"]
  from files sw gz have one: "writeRelease (?E\<lparr>os_Open := one_file ''hi'', os_Stat := one_stat ''hi''\<rparr>)
      ([], []) compressed_zero_copy ?toc =
    writeRelease (?E\<lparr>os_Open := one_file_in_two_reads ''hi'', os_Stat := one_stat ''hi''\<rparr>)
      ([], []) compressed_zero_copy ?toc"
    using run [THEN conjunct2, THEN conjunct1] by (simp only: simp_thms)
  from buf ok have two: "fst (fst (writeRelease ?E ([], []) compressed_zero_copy ?toc)) =
      [] @ fst (fst (writeReleaseHeader ?E ([], []) compressed_zero_copy)) @
      concat (asset_texts ?E compressed_zero_copy [] ?toc)"
    using run [THEN conjunct2, THEN conjunct2, THEN conjunct2] by (simp only: simp_thms)
  then have two': "fst (fst (writeRelease ?E ([], []) compressed_zero_copy ?toc)) =
      fst (fst (writeReleaseHeader ?E ([], []) compressed_zero_copy)) @
      concat (asset_texts ?E compressed_zero_copy [] ?toc)"
    by (simp only: append_Nil)
  from elsewhere zero differ same one buf ok two' texts show ?thesis
    by (intro conjI)
qed

end
